theory Spec2Isabelle
  imports Main
begin

section \<open>JavaScript values and strings\<close>

text \<open>
  Request bodies are parsed JSON and the handlers test their fields with JavaScript
  truthiness and \<^verbatim>\<open>typeof\<close>.  A field is therefore a \<open>js_value\<close>; numbers are
  restricted to integers and all objects and arrays are one opaque value, which is all
  the handlers distinguish.  A string is a list of code units below 256.
\<close>

datatype js_value = JUndefined | JNull | JBool bool | JNumber int | JString string | JObject

fun truthy :: "js_value \<Rightarrow> bool" where
  "truthy JUndefined = False"
| "truthy JNull = False"
| "truthy (JBool b) = b"
| "truthy (JNumber n) = (n \<noteq> 0)"
| "truthy (JString s) = (s \<noteq> [])"
| "truthy JObject = True"

fun typeof :: "js_value \<Rightarrow> string" where
  "typeof JUndefined = ''undefined''"
| "typeof JNull = ''object''"
| "typeof (JBool b) = ''boolean''"
| "typeof (JNumber n) = ''number''"
| "typeof (JString s) = ''string''"
| "typeof JObject = ''object''"

text \<open>White space as \<^verbatim>\<open>String.prototype.trim\<close> and the regex class \<^verbatim>\<open>\s\<close> see it, among
  the code units below 256: TAB, LF, VT, FF, CR, SPACE and NBSP.\<close>

definition isWhiteSpace :: "char \<Rightarrow> bool" where
  "isWhiteSpace c = (of_char c \<in> {9, 10, 11, 12, 13, 32, 160 :: nat})"

definition trim :: "string \<Rightarrow> string" where
  "trim s = rev (dropWhile isWhiteSpace (rev (dropWhile isWhiteSpace s)))"

text \<open>\<^verbatim>\<open>toLowerCase\<close> on one code unit below 256: A-Z and the Latin-1 capitals
  (U+00C0 to U+00DE without the multiplication sign) move up by 32.\<close>

definition toLowerCase_char :: "char \<Rightarrow> char" where
  "toLowerCase_char c =
     (let n = (of_char c :: nat) in
      if (65 \<le> n \<and> n \<le> 90) \<or> (192 \<le> n \<and> n \<le> 222 \<and> n \<noteq> 215)
      then char_of (n + 32) else c)"

definition toLowerCase :: "string \<Rightarrow> string" where
  "toLowerCase s = map toLowerCase_char s"

definition substring :: "string \<Rightarrow> nat \<Rightarrow> nat \<Rightarrow> string" where
  "substring s i j = take (max i j - min i j) (drop (min i j) s)"

section \<open>utils/fingerprint.ts\<close>

text \<open>The character class \<^verbatim>\<open>[a-z0-9\-_]\<close> of the regular expression, by code point.\<close>

definition in_class :: "char \<Rightarrow> bool" where
  "in_class c =
     (let n = (of_char c :: nat) in
      (97 \<le> n \<and> n \<le> 122) \<or> (48 \<le> n \<and> n \<le> 57) \<or> n = 45 \<or> n = 95)"

text \<open>\<^verbatim>\<open>s.replace(/[^a-z0-9\-_]/g, '')\<close>: every code unit outside the class is deleted.\<close>

definition replace_outside_class :: "string \<Rightarrow> string" where
  "replace_outside_class s = filter in_class s"

text \<open>
  \<^verbatim>\<open>normalizeDeviceFingerprint\<close>.  Each \<^verbatim>\<open>throw new Error(msg)\<close> is \<open>Inl msg\<close>.
\<close>

definition normalizeDeviceFingerprint :: "js_value \<Rightarrow> string + string" where
  "normalizeDeviceFingerprint fingerprint =
     (if \<not> truthy fingerprint \<or> typeof fingerprint \<noteq> ''string''
      then Inl ''Invalid device fingerprint provided''
      else case fingerprint of
        JString raw \<Rightarrow>
          (let normalized = toLowerCase (trim raw);
               normalized = replace_outside_class normalized
           in if length normalized < 8
              then Inl ''Device fingerprint must be at least 8 characters long''
              else if length normalized > 128
                   then Inr (substring normalized 0 128)
                   else Inr normalized)
      | _ \<Rightarrow> Inl ''Invalid device fingerprint provided'')"

text \<open>\<^verbatim>\<open>isValidDeviceFingerprint\<close>: whether the normalisation returns.\<close>

definition isValidDeviceFingerprint :: "js_value \<Rightarrow> bool" where
  "isValidDeviceFingerprint fingerprint =
     (case normalizeDeviceFingerprint fingerprint of Inl _ \<Rightarrow> False | Inr _ \<Rightarrow> True)"

subsection \<open>The specification's Normalize\<close>

text \<open>
  The FingerprintNormalizer as the specification words it, for comparison with the code:
  trim surrounding white space, lowercase, strip every character outside the listed
  alphabet; \<open>TooShort\<close> under 8 characters, truncation to 128, \<open>Empty\<close> for an empty or
  non-string input.
\<close>

datatype ValidationError = Empty | TooShort

definition canonical_alphabet :: "char set" where
  "canonical_alphabet = set ''abcdefghijklmnopqrstuvwxyz0123456789_-''"

definition Normalize :: "js_value \<Rightarrow> ValidationError + string" where
  "Normalize raw =
     (case raw of
        JString s \<Rightarrow>
          if s = [] then Inl Empty
          else let stripped = filter (\<lambda>c. c \<in> canonical_alphabet) (map toLowerCase_char (trim s))
               in if length stripped < 8 then Inl TooShort else Inr (take 128 stripped)
      | _ \<Rightarrow> Inl Empty)"

definition thrown_message :: "ValidationError \<Rightarrow> string" where
  "thrown_message e =
     (case e of
        Empty \<Rightarrow> ''Invalid device fingerprint provided''
      | TooShort \<Rightarrow> ''Device fingerprint must be at least 8 characters long'')"

text \<open>The normaliser without its harmless \<open>trim\<close> (white space is outside the class).\<close>

definition canon :: "string \<Rightarrow> string" where
  "canon s = replace_outside_class (toLowerCase s)"

section \<open>lib/crypto.ts\<close>

text \<open>
  The interface \<^verbatim>\<open>LicensePayload\<close>.  Its \<^verbatim>\<open>device_limit\<close> is \<open>payload_device_limit\<close> here,
  the name \<open>device_limit\<close> being the database column's.  Times in a payload are Unix
  seconds.
\<close>

record LicensePayload =
  lic :: string
  sub :: string
  jti :: string
  tier :: string
  payload_device_limit :: int
  iat :: int
  exp :: int

text \<open>
  A signed token, symbolically: the header's algorithm, the payload, the issuer and
  audience claims that signing adds, and the RSA key pair whose private key made the
  signature over all of these.  A string that is not a JWS at all is \<open>NotJws\<close>.
\<close>

record jws =
  alg :: string
  payload :: LicensePayload
  iss :: string
  aud :: string
  signed_by :: nat

datatype token = NotJws string | Jws jws

text \<open>The text of a key file or key variable: a PEM of key pair \<open>n\<close>, or something else.\<close>

datatype pem = PrivateKeyPem nat | PublicKeyPem nat | NotAKey

text \<open>
  \<^verbatim>\<open>process.env\<close> and the key files (\<^verbatim>\<open>fs.readFileSync\<close> throws on a missing file:
  \<open>None\<close>).  A variable that is unset is \<open>None\<close>.
\<close>

record process_env =
  ADMIN_ISSUE_TOKEN :: "string option"
  PRIVATE_KEY_PATH :: "string option"
  PUBLIC_KEY_PATH :: "string option"
  NODE_ENV :: "string option"
  PRIVATE_KEY :: "pem option"
  PUBLIC_KEY :: "pem option"
  JWT_ISSUER :: "string option"
  JWT_AUDIENCE :: "string option"
  readFileSync :: "string \<Rightarrow> pem option"

text \<open>Truthiness of a string that may be undefined, and \<^verbatim>\<open>x || dflt\<close>.\<close>

definition defined_nonempty :: "string option \<Rightarrow> bool" where
  "defined_nonempty v = (case v of None \<Rightarrow> False | Some s \<Rightarrow> s \<noteq> [])"

definition or_default :: "string option \<Rightarrow> string \<Rightarrow> string" where
  "or_default v dflt = (case v of None \<Rightarrow> dflt | Some s \<Rightarrow> if s = [] then dflt else s)"

datatype VerificationError =
  malformed | bad_signature | issuer_mismatch | audience_mismatch | expired

datatype crypto_error = KeyError string | JwtSignError | JwtVerifyError VerificationError

definition loadPrivateKey :: "process_env \<Rightarrow> crypto_error + pem" where
  "loadPrivateKey env =
     (case PRIVATE_KEY_PATH env of
        None \<Rightarrow> Inl (KeyError ''PRIVATE_KEY_PATH environment variable is not set'')
      | Some privateKeyPath \<Rightarrow>
          if privateKeyPath = []
          then Inl (KeyError ''PRIVATE_KEY_PATH environment variable is not set'')
          else if NODE_ENV env = Some ''development''
          then (case readFileSync env privateKeyPath of
                  None \<Rightarrow> Inl (KeyError ''Failed to load private key'')
                | Some privateKey \<Rightarrow> Inr privateKey)
          else (case PRIVATE_KEY env of
                  None \<Rightarrow> Inl (KeyError ''Failed to load private key'')
                | Some privateKey \<Rightarrow> Inr privateKey))"

definition loadPublicKey :: "process_env \<Rightarrow> crypto_error + pem" where
  "loadPublicKey env =
     (case PUBLIC_KEY_PATH env of
        None \<Rightarrow> Inl (KeyError ''PUBLIC_KEY_PATH environment variable is not set'')
      | Some publicKeyPath \<Rightarrow>
          if publicKeyPath = []
          then Inl (KeyError ''PUBLIC_KEY_PATH environment variable is not set'')
          else if NODE_ENV env = Some ''development''
          then (case readFileSync env publicKeyPath of
                  None \<Rightarrow> Inl (KeyError ''Failed to load public key'')
                | Some publicKey \<Rightarrow> Inr publicKey)
          else (case PUBLIC_KEY env of
                  None \<Rightarrow> Inl (KeyError ''Failed to load public key'')
                | Some publicKey \<Rightarrow> Inr publicKey))"

subsection \<open>The token library\<close>

text \<open>
  Modelled from the spec: \<^verbatim>\<open>jwt.sign\<close>, \<^verbatim>\<open>jwt.verify\<close> and \<^verbatim>\<open>jwt.decode\<close> of the
  \<^verbatim>\<open>jsonwebtoken\<close> package, which \<^verbatim>\<open>lib/crypto.ts\<close> and the verify route call and which
  is not under \<^verbatim>\<open>src/\<close>.  Following TokenCodec: signing serialises the claims with an
  asymmetric scheme and embeds issuer and audience as verifiable metadata, failing when
  the private key is malformed; verification checks the signature against the public
  key, validates issuer and audience, and validates \<open>expires_at\<close> against the current
  time with zero grace (\<open>expires_at = now\<close> is expired); peeking extracts the payload
  without verifying anything.
\<close>

definition jwt_sign ::
  "LicensePayload \<Rightarrow> pem \<Rightarrow> string \<Rightarrow> string \<Rightarrow> string \<Rightarrow> crypto_error + token" where
  "jwt_sign claims secretOrPrivateKey algorithm issuer audience =
     (case secretOrPrivateKey of
        PrivateKeyPem n \<Rightarrow>
          Inr (Jws \<lparr>alg = algorithm, payload = claims, iss = issuer, aud = audience,
                    signed_by = n\<rparr>)
      | _ \<Rightarrow> Inl JwtSignError)"

definition jwt_verify ::
  "token \<Rightarrow> pem \<Rightarrow> string list \<Rightarrow> string \<Rightarrow> string \<Rightarrow> int \<Rightarrow> crypto_error + jws" where
  "jwt_verify t secretOrPublicKey algorithms issuer audience clockTimestamp =
     (case t of
        NotJws _ \<Rightarrow> Inl (JwtVerifyError malformed)
      | Jws j \<Rightarrow>
          if alg j \<notin> set algorithms then Inl (JwtVerifyError bad_signature)
          else if secretOrPublicKey \<noteq> PublicKeyPem (signed_by j)
          then Inl (JwtVerifyError bad_signature)
          else if iss j \<noteq> issuer then Inl (JwtVerifyError issuer_mismatch)
          else if aud j \<noteq> audience then Inl (JwtVerifyError audience_mismatch)
          else if exp (payload j) \<le> clockTimestamp then Inl (JwtVerifyError expired)
          else Inr j)"

definition jwt_decode :: "token \<Rightarrow> jws option" where
  "jwt_decode t = (case t of NotJws _ \<Rightarrow> None | Jws j \<Rightarrow> Some j)"

subsection \<open>signLicenseToken and verifyLicenseToken\<close>

text \<open>
  Both wrap every failure into one thrown \<^verbatim>\<open>Error\<close>; the cause is kept here as the
  \<open>crypto_error\<close>.  \<open>now\<close> is the clock in milliseconds (\<^verbatim>\<open>Date.now()\<close>), of which the
  library takes the whole seconds.
\<close>

definition signLicenseToken :: "process_env \<Rightarrow> LicensePayload \<Rightarrow> crypto_error + token" where
  "signLicenseToken env claims =
     (case loadPrivateKey env of
        Inl e \<Rightarrow> Inl e
      | Inr privateKey \<Rightarrow>
          jwt_sign claims privateKey ''RS256''
            (or_default (JWT_ISSUER env) ''levox-license-server'')
            (or_default (JWT_AUDIENCE env) ''levox-cli''))"

definition verifyLicenseToken :: "process_env \<Rightarrow> token \<Rightarrow> int \<Rightarrow> crypto_error + jws" where
  "verifyLicenseToken env t now =
     (case loadPublicKey env of
        Inl e \<Rightarrow> Inl e
      | Inr publicKey \<Rightarrow>
          jwt_verify t publicKey [''RS256'']
            (or_default (JWT_ISSUER env) ''levox-license-server'')
            (or_default (JWT_AUDIENCE env) ''levox-cli'')
            (now div 1000))"

section \<open>The database\<close>

text \<open>
  The table \<^verbatim>\<open>licenses\<close> of the deployment SQL, without the generated columns \<^verbatim>\<open>id\<close> and
  \<^verbatim>\<open>created_at\<close>, which no handler reads.  \<^verbatim>\<open>current_devices\<close> and \<^verbatim>\<open>expires_at\<close> are
  nullable and the handlers test them for null; a timestamp is its number of
  milliseconds since the epoch, which is what \<^verbatim>\<open>new Date(...)\<close> compares.
\<close>

record license =
  license_key :: string
  jwt :: token
  email :: string
  plan :: string
  device_limit :: int
  current_devices :: "string list option"
  expires_at :: "int option"
  revoked :: bool

text \<open>The table \<^verbatim>\<open>license_activations\<close>, with the three entries of \<^verbatim>\<open>meta\<close> as columns.\<close>

record license_activation =
  activation_license_key :: string
  activation_device_fingerprint :: string
  meta_timestamp :: int
  meta_success :: bool
  meta_device_limit_exceeded :: bool

record database =
  licenses :: "license list"
  license_activations :: "license_activation list"

text \<open>
  What the runtime hands to one request: the clock, the next UUID, the calendar
  arithmetic of \<^verbatim>\<open>Date\<close> (\<^verbatim>\<open>setFullYear(getFullYear() + 1)\<close> and
  \<^verbatim>\<open>setDate(getDate() + n)\<close>), and for each storage call of the handler whether the
  storage service answers it with an error.
\<close>

record request_io =
  now :: int
  uuidv4 :: string
  plus_one_year :: "int \<Rightarrow> int"
  plus_days :: "int \<Rightarrow> int \<Rightarrow> int"
  select_error :: bool
  update_error :: bool
  insert_error :: bool
  activation_insert_error :: bool

subsection \<open>The storage client\<close>

text \<open>
  The calls the handlers make on the Supabase client, as functions on a table.
  \<^verbatim>\<open>.select(..).eq(..).single()\<close> gives the row when exactly one row matches and no data
  (with an error) otherwise; \<^verbatim>\<open>.update(..).eq(..)\<close> changes every matching row;
  \<^verbatim>\<open>.insert(..)\<close> on \<^verbatim>\<open>licenses\<close> is refused when the \<^verbatim>\<open>license_key\<close> is taken (the column
  is declared \<^verbatim>\<open>unique\<close>).  A call answered with an error changes nothing.  The first
  component of a result is the \<^verbatim>\<open>error\<close> of the answer.
\<close>

definition select_single :: "('r \<Rightarrow> bool) \<Rightarrow> 'r list \<Rightarrow> bool \<Rightarrow> 'r option" where
  "select_single matches rows fails =
     (if fails then None
      else case filter matches rows of [r] \<Rightarrow> Some r | _ \<Rightarrow> None)"

definition update_rows ::
  "('r \<Rightarrow> bool) \<Rightarrow> ('r \<Rightarrow> 'r) \<Rightarrow> 'r list \<Rightarrow> bool \<Rightarrow> bool \<times> 'r list" where
  "update_rows matches change rows fails =
     (if fails then (True, rows)
      else (False, map (\<lambda>r. if matches r then change r else r) rows))"

definition insert_license :: "license \<Rightarrow> license list \<Rightarrow> bool \<Rightarrow> bool \<times> license list" where
  "insert_license row rows fails =
     (if fails \<or> license_key row \<in> set (map license_key rows) then (True, rows)
      else (False, rows @ [row]))"

definition insert_activation ::
  "license_activation \<Rightarrow> database \<Rightarrow> bool \<Rightarrow> database" where
  "insert_activation row db fails =
     (if fails then db else db\<lparr>license_activations := license_activations db @ [row]\<rparr>)"

text \<open>A JSON answer: the failure with its HTTP status and \<^verbatim>\<open>error\<close> text, or the data.\<close>

datatype 'a api_response = Failure nat string | Success 'a

section \<open>app/api/verify-license/route.ts\<close>

record VerifyLicenseRequest =
  token :: "token option"
  device_fingerprint :: js_value

text \<open>The \<^verbatim>\<open>data\<close> of a successful answer; three of its fields carry the prefix
  \<open>data_\<close> to keep them apart from the columns and the payload fields.\<close>

record verify_data =
  valid :: bool
  data_tier :: string
  data_expires_at :: "int option"
  data_device_limit :: int
  current_devices_count :: nat
  device_limit_exceeded :: bool

text \<open>\<^verbatim>\<open>!body.token\<close>: the field is absent or the empty string.\<close>

definition token_missing :: "token option \<Rightarrow> bool" where
  "token_missing t = (case t of None \<Rightarrow> True | Some (NotJws s) \<Rightarrow> s = [] | Some (Jws _) \<Rightarrow> False)"

text \<open>\<^verbatim>\<open>license.expires_at && new Date(license.expires_at) < new Date()\<close>\<close>

definition record_expired :: "license \<Rightarrow> int \<Rightarrow> bool" where
  "record_expired l t = (case expires_at l of None \<Rightarrow> False | Some e \<Rightarrow> e < t)"

text \<open>\<^verbatim>\<open>license.current_devices || []\<close>\<close>

definition devices_of :: "license \<Rightarrow> string list" where
  "devices_of l = (case current_devices l of None \<Rightarrow> [] | Some ds \<Rightarrow> ds)"

text \<open>The final \<^verbatim>\<open>NextResponse.json({ ok: true, data: ... })\<close>.\<close>

definition verification_result :: "license \<Rightarrow> nat \<Rightarrow> bool \<Rightarrow> verify_data api_response" where
  "verification_result l currentDevicesCount deviceLimitExceeded =
     Success \<lparr>valid = True, data_tier = plan l, data_expires_at = expires_at l,
              data_device_limit = device_limit l,
              current_devices_count = currentDevicesCount,
              device_limit_exceeded = deviceLimitExceeded\<rparr>"

text \<open>
  The handler's local variables at the point where it has found the fingerprint
  unregistered and is about to write (line 118 of the route).
\<close>

record admission_attempt =
  att_licenseKey :: string
  att_license :: license
  att_normalizedFingerprint :: string
  att_currentDevicesCount :: nat

text \<open>
  The handler up to that point (lines 26 to 118): it only reads.  \<open>Inl\<close> is the answer
  of a request that ends here, with the database untouched.  An exception of
  \<^verbatim>\<open>normalizeDeviceFingerprint\<close> reaches the outer \<^verbatim>\<open>catch\<close>, which answers 500.  The
  library's \<^verbatim>\<open>decode\<close> answers null on what is not a token rather than throwing, so the
  400 for a thrown decode is not a branch here.
\<close>

definition verify_before_write ::
  "process_env \<Rightarrow> request_io \<Rightarrow> database \<Rightarrow> VerifyLicenseRequest option
     \<Rightarrow> verify_data api_response + admission_attempt" where
  "verify_before_write env io db request =
     (case request of
        None \<Rightarrow> Inl (Failure 400 ''Invalid JSON in request body'')
      | Some body \<Rightarrow>
          if token_missing (token body)
          then Inl (Failure 400 ''Missing required field: token'')
          else
            (case Option.bind (token body) jwt_decode of
               None \<Rightarrow> Inl (Failure 400 ''Invalid JWT token - missing jti'')
             | Some decodedHeader \<Rightarrow>
                 if jti (payload decodedHeader) = []
                 then Inl (Failure 400 ''Invalid JWT token - missing jti'')
                 else
                   (let licenseKey = jti (payload decodedHeader) in
                    case select_single (\<lambda>r. license_key r = licenseKey) (licenses db)
                           (select_error io) of
                      None \<Rightarrow> Inl (Failure 404 ''License not found'')
                    | Some license \<Rightarrow>
                        if revoked license
                        then Inl (Failure 403 ''License has been revoked'')
                        else if record_expired license (now io)
                        then Inl (Failure 403 ''License has expired'')
                        else
                          (case verifyLicenseToken env (the (token body)) (now io) of
                             Inl verifyError \<Rightarrow>
                               Inl (Failure 403 ''Invalid license token signature'')
                           | Inr _ \<Rightarrow>
                               (let currentDevicesCount = length (devices_of license) in
                                if \<not> truthy (device_fingerprint body)
                                then Inl (verification_result license currentDevicesCount False)
                                else
                                  (case normalizeDeviceFingerprint (device_fingerprint body) of
                                     Inl thrown \<Rightarrow> Inl (Failure 500 ''Internal server error'')
                                   | Inr normalizedFingerprint \<Rightarrow>
                                       if normalizedFingerprint \<in> set (devices_of license)
                                       then Inl (verification_result license
                                                   currentDevicesCount False)
                                       else Inr \<lparr>att_licenseKey = licenseKey,
                                                 att_license = license,
                                                 att_normalizedFingerprint =
                                                   normalizedFingerprint,
                                                 att_currentDevicesCount =
                                                   currentDevicesCount\<rparr>))))))"

text \<open>
  The rest of the handler (lines 118 to 162): the update of \<^verbatim>\<open>current_devices\<close> when the
  count read earlier is below the limit, the activation log (whose answer the handler
  does not look at), and the answer.
\<close>

definition verify_write ::
  "request_io \<Rightarrow> database \<Rightarrow> admission_attempt \<Rightarrow> verify_data api_response \<times> database" where
  "verify_write io db a =
     (let license = att_license a;
          licenseKey = att_licenseKey a;
          normalizedFingerprint = att_normalizedFingerprint a;
          currentDevicesCount = att_currentDevicesCount a
      in
      if int currentDevicesCount < device_limit license
      then
        (let updatedDevices = devices_of license @ [normalizedFingerprint];
             (updateError, rows) =
               update_rows (\<lambda>r. license_key r = licenseKey)
                 (\<lambda>r. r\<lparr>current_devices := Some updatedDevices\<rparr>)
                 (licenses db) (update_error io);
             count = (if \<not> updateError then length updatedDevices else currentDevicesCount);
             logged =
               insert_activation
                 \<lparr>activation_license_key = licenseKey,
                  activation_device_fingerprint = normalizedFingerprint,
                  meta_timestamp = now io, meta_success = True,
                  meta_device_limit_exceeded = False\<rparr>
                 (db\<lparr>licenses := rows\<rparr>) (activation_insert_error io)
         in (verification_result license count False, logged))
      else
        (verification_result license currentDevicesCount True,
         insert_activation
           \<lparr>activation_license_key = licenseKey,
            activation_device_fingerprint = normalizedFingerprint,
            meta_timestamp = now io, meta_success = False,
            meta_device_limit_exceeded = True\<rparr>
           db (activation_insert_error io)))"

text \<open>The handler \<^verbatim>\<open>POST\<close> of the verify route: the answer and the database after it.\<close>

definition verify_license_POST ::
  "process_env \<Rightarrow> request_io \<Rightarrow> database \<Rightarrow> VerifyLicenseRequest option
     \<Rightarrow> verify_data api_response \<times> database" where
  "verify_license_POST env io db request =
     (case verify_before_write env io db request of
        Inl response \<Rightarrow> (response, db)
      | Inr attempt \<Rightarrow> verify_write io db attempt)"

text \<open>
  Several verification requests served one after the other, each to completion.
\<close>

fun verify_in_turn ::
  "process_env \<Rightarrow> database \<Rightarrow> (request_io \<times> VerifyLicenseRequest option) list
     \<Rightarrow> verify_data api_response list \<times> database" where
  "verify_in_turn env db [] = ([], db)"
| "verify_in_turn env db ((io, request) # rest) =
     (let (response, db1) = verify_license_POST env io db request;
          (responses, db2) = verify_in_turn env db1 rest
      in (response # responses, db2))"

text \<open>
  Two verification requests served concurrently, in the schedule where each handler
  has its \<^verbatim>\<open>select\<close> answered before either sends its \<^verbatim>\<open>update\<close>: both read the same
  database, then the first writes, then the second.
\<close>

definition verify_overlapping ::
  "process_env \<Rightarrow> database \<Rightarrow> request_io \<times> VerifyLicenseRequest option
     \<Rightarrow> request_io \<times> VerifyLicenseRequest option
     \<Rightarrow> verify_data api_response \<times> verify_data api_response \<times> database" where
  "verify_overlapping env db first second =
     (let read1 = verify_before_write env (fst first) db (snd first);
          read2 = verify_before_write env (fst second) db (snd second);
          (response1, db1) =
            (case read1 of Inl r \<Rightarrow> (r, db) | Inr a \<Rightarrow> verify_write (fst first) db a);
          (response2, db2) =
            (case read2 of Inl r \<Rightarrow> (r, db1) | Inr a \<Rightarrow> verify_write (fst second) db1 a)
      in (response1, response2, db2))"

section \<open>app/api/revoke-license/route.ts\<close>

record RevokeLicenseRequest =
  revoke_license_key :: "string option"

record revoke_data =
  message :: string
  revoked_license_key :: string
  revoked_flag :: bool

text \<open>The check of the \<^verbatim>\<open>X-ADMIN-TOKEN\<close> header, shared by the two admin routes: the
  answer that ends the request, if any.\<close>

definition admin_check :: "process_env \<Rightarrow> string option \<Rightarrow> (nat \<times> string) option" where
  "admin_check env providedToken =
     (if \<not> defined_nonempty (ADMIN_ISSUE_TOKEN env)
      then Some (500, ''Server configuration error'')
      else if \<not> defined_nonempty providedToken \<or> providedToken \<noteq> ADMIN_ISSUE_TOKEN env
      then Some (401, ''Unauthorized - Invalid admin token'')
      else None)"

definition revoke_license_POST ::
  "process_env \<Rightarrow> request_io \<Rightarrow> string option \<Rightarrow> database \<Rightarrow> RevokeLicenseRequest option
     \<Rightarrow> revoke_data api_response \<times> database" where
  "revoke_license_POST env io providedToken db request =
     (case admin_check env providedToken of
        Some (status, err) \<Rightarrow> (Failure status err, db)
      | None \<Rightarrow>
          (case request of
             None \<Rightarrow> (Failure 400 ''Invalid JSON in request body'', db)
           | Some body \<Rightarrow>
               if \<not> defined_nonempty (revoke_license_key body)
               then (Failure 400 ''Missing required field: license_key'', db)
               else
                 (let key = the (revoke_license_key body) in
                  case select_single (\<lambda>r. license_key r = key) (licenses db)
                         (select_error io) of
                    None \<Rightarrow> (Failure 404 ''License not found'', db)
                  | Some existingLicense \<Rightarrow>
                      if revoked existingLicense
                      then (Failure 400 ''License is already revoked'', db)
                      else
                        (let (updateError, rows) =
                               update_rows (\<lambda>r. license_key r = key)
                                 (\<lambda>r. r\<lparr>revoked := True\<rparr>) (licenses db) (update_error io)
                         in if updateError
                            then (Failure 500 ''Failed to revoke license in database'', db)
                            else (Success \<lparr>message = ''License revoked successfully'',
                                           revoked_license_key = key,
                                           revoked_flag = True\<rparr>,
                                  db\<lparr>licenses := rows\<rparr>)))))"

section \<open>app/api/issue-license/route.ts\<close>

text \<open>The body fields are typed as the interface \<^verbatim>\<open>IssueLicenseRequest\<close> declares them,
  each possibly absent; numbers are integers.\<close>

record IssueLicenseRequest =
  issue_email :: "string option"
  issue_plan :: "string option"
  issue_device_limit :: "int option"
  issue_period_days :: "int option"

record issue_data =
  issued_token :: token
  issued_license_key :: string
  issued_expires_at :: int

definition number_missing :: "int option \<Rightarrow> bool" where
  "number_missing v = (case v of None \<Rightarrow> True | Some n \<Rightarrow> n = 0)"

definition issue_license_POST ::
  "process_env \<Rightarrow> request_io \<Rightarrow> string option \<Rightarrow> database \<Rightarrow> IssueLicenseRequest option
     \<Rightarrow> issue_data api_response \<times> database" where
  "issue_license_POST env io providedToken db request =
     (case admin_check env providedToken of
        Some (status, err) \<Rightarrow> (Failure status err, db)
      | None \<Rightarrow>
          (case request of
             None \<Rightarrow> (Failure 400 ''Invalid JSON in request body'', db)
           | Some body \<Rightarrow>
               if \<not> defined_nonempty (issue_email body) \<or> \<not> defined_nonempty (issue_plan body)
                  \<or> number_missing (issue_device_limit body)
                  \<or> number_missing (issue_period_days body)
               then (Failure 400
                       ''Missing required fields: email, plan, device_limit, period_days'', db)
               else if the (issue_plan body) \<notin> set [''pro'', ''enterprise'']
               then (Failure 400 ''Invalid plan. Must be \"pro\" or \"enterprise\"'', db)
               else if the (issue_device_limit body) < 1
               then (Failure 400 ''device_limit must be a positive number'', db)
               else if the (issue_period_days body) < 1
               then (Failure 400 ''period_days must be a positive number'', db)
               else
                 (let licenseKey = uuidv4 io;
                      expiresAt = plus_days io (now io) (the (issue_period_days body));
                      claims = \<lparr>lic = ''LVX'', sub = the (issue_email body), jti = licenseKey,
                                tier = the (issue_plan body),
                                payload_device_limit = the (issue_device_limit body),
                                iat = now io div 1000, exp = expiresAt div 1000\<rparr>
                  in case signLicenseToken env claims of
                       Inl thrown \<Rightarrow> (Failure 500 ''Internal server error'', db)
                     | Inr signed \<Rightarrow>
                         (let (insertError, rows) =
                                insert_license
                                  \<lparr>license_key = licenseKey, jwt = signed,
                                   email = the (issue_email body),
                                   plan = the (issue_plan body),
                                   device_limit = the (issue_device_limit body),
                                   current_devices = Some [],
                                   expires_at = Some expiresAt, revoked = False\<rparr>
                                  (licenses db) (insert_error io)
                          in if insertError
                             then (Failure 500 ''Failed to store license in database'', db)
                             else (Success \<lparr>issued_token = signed,
                                            issued_license_key = licenseKey,
                                            issued_expires_at = expiresAt\<rparr>,
                                   db\<lparr>licenses := rows\<rparr>)))))"

section \<open>app/api/generate-free-license/route.ts and generate-pro-license/route.ts\<close>

text \<open>
  The test of \<^verbatim>\<open>/^[^\s@]+@[^\s@]+\.[^\s@]+$/\<close>: one \<^verbatim>\<open>@\<close>, no white space, something
  before the \<^verbatim>\<open>@\<close>, and after it a dot that is neither first nor last.
\<close>

definition emailRegex_test :: "string \<Rightarrow> bool" where
  "emailRegex_test s =
     (case dropWhile (\<lambda>c. c \<noteq> CHR ''@'') s of
        [] \<Rightarrow> False
      | _ # domain \<Rightarrow>
          takeWhile (\<lambda>c. c \<noteq> CHR ''@'') s \<noteq> []
          \<and> list_all (\<lambda>c. \<not> isWhiteSpace c) (takeWhile (\<lambda>c. c \<noteq> CHR ''@'') s)
          \<and> list_all (\<lambda>c. \<not> isWhiteSpace c \<and> c \<noteq> CHR ''@'') domain
          \<and> CHR ''.'' \<in> set (butlast (tl domain)))"

record generate_data =
  generated_license_key :: string
  generated_expires_at :: int
  generated_message :: string

text \<open>
  What the two routes share from their duplicate check on (lines 29 to 110 of the free
  route, 43 to 124 of the pro route), which differ in texts only, given here as
  \<open>success_message\<close>.  The mail sent at the end cannot fail the request and touches no
  table.  A \<^verbatim>\<open>select\<close> answered with an error leaves \<^verbatim>\<open>existingLicense\<close> null.
\<close>

definition generate_enterprise_license ::
  "process_env \<Rightarrow> request_io \<Rightarrow> database \<Rightarrow> string \<Rightarrow> string
     \<Rightarrow> generate_data api_response \<times> database" where
  "generate_enterprise_license env io db address success_message =
     (case select_single (\<lambda>r. email r = address \<and> plan r = ''enterprise'') (licenses db)
             (select_error io) of
        Some existingLicense \<Rightarrow>
          (Failure 409 ''An enterprise license already exists for this email'', db)
      | None \<Rightarrow>
          (let licenseKey = uuidv4 io;
               expiresAt = plus_one_year io (now io);
               claims = \<lparr>lic = ''LVX'', sub = address, jti = licenseKey, tier = ''enterprise'',
                         payload_device_limit = 1,
                         iat = now io div 1000, exp = expiresAt div 1000\<rparr>
           in case signLicenseToken env claims of
                Inl jwtError \<Rightarrow> (Failure 500 ''License generation failed'', db)
              | Inr signed \<Rightarrow>
                  (let (licenseError, rows) =
                         insert_license
                           \<lparr>license_key = licenseKey, jwt = signed, email = address,
                            plan = ''enterprise'', device_limit = 1,
                            current_devices = Some [],
                            expires_at = Some expiresAt, revoked = False\<rparr>
                           (licenses db) (insert_error io)
                   in if licenseError
                      then (Failure 500 ''Failed to store license'', db)
                      else (Success \<lparr>generated_license_key = licenseKey,
                                     generated_expires_at = expiresAt,
                                     generated_message = success_message\<rparr>,
                            db\<lparr>licenses := rows\<rparr>))))"

text \<open>The free route: a body that is not JSON (\<open>None\<close>) throws into the outer
  \<^verbatim>\<open>catch\<close>; the \<^verbatim>\<open>email\<close> must be present, non-blank and pass the regular expression.\<close>

definition generate_free_license_POST ::
  "process_env \<Rightarrow> request_io \<Rightarrow> database \<Rightarrow> string option option
     \<Rightarrow> generate_data api_response \<times> database" where
  "generate_free_license_POST env io db request =
     (case request of
        None \<Rightarrow> (Failure 500 ''Internal server error'', db)
      | Some body_email \<Rightarrow>
          if \<not> defined_nonempty body_email \<or> trim (the body_email) = []
          then (Failure 400 ''Email is required'', db)
          else if \<not> emailRegex_test (the body_email)
          then (Failure 400 ''Invalid email format'', db)
          else generate_enterprise_license env io db (the body_email)
                 ''Enterprise license generated successfully!'')"

text \<open>The pro route: \<open>None\<close> is a body that is not JSON; the \<^verbatim>\<open>email\<close> must be present.\<close>

definition generate_pro_license_POST ::
  "process_env \<Rightarrow> request_io \<Rightarrow> database \<Rightarrow> string option option
     \<Rightarrow> generate_data api_response \<times> database" where
  "generate_pro_license_POST env io db request =
     (case request of
        None \<Rightarrow> (Failure 400 ''Invalid JSON in request body'', db)
      | Some body_email \<Rightarrow>
          if \<not> defined_nonempty body_email
          then (Failure 400 ''Email is required'', db)
          else generate_enterprise_license env io db (the body_email)
                 ''Enterprise license generated successfully'')"

section \<open>app/api/get-license-token/route.ts\<close>

record token_data =
  token_jwt :: token
  token_expires_at :: "int option"
  token_tier :: string

text \<open>This route reads only.  \<^verbatim>\<open>new Date(null)\<close> is the epoch, so a null \<^verbatim>\<open>expires_at\<close>
  counts as time 0 here.\<close>

definition get_license_token_POST ::
  "request_io \<Rightarrow> database \<Rightarrow> string option option \<Rightarrow> token_data api_response" where
  "get_license_token_POST io db request =
     (case request of
        None \<Rightarrow> Failure 400 ''Invalid JSON in request body''
      | Some body_key \<Rightarrow>
          if \<not> defined_nonempty body_key
          then Failure 400 ''Missing required field: license_key''
          else
            (case select_single (\<lambda>r. license_key r = the body_key) (licenses db)
                    (select_error io) of
               None \<Rightarrow> Failure 404 ''License key not found''
             | Some license \<Rightarrow>
                 if revoked license then Failure 403 ''License has been revoked''
                 else if (case expires_at license of None \<Rightarrow> 0 | Some e \<Rightarrow> e) < now io
                 then Failure 403 ''License has expired''
                 else Success \<lparr>token_jwt = jwt license,
                                token_expires_at = expires_at license,
                                token_tier = plan license\<rparr>))"

section \<open>The service as a whole\<close>

text \<open>One request to any route that touches the database, with what the runtime gives
  it, and the database after a sequence of requests served one after the other.\<close>

datatype api_call =
    VerifyLicense request_io "VerifyLicenseRequest option"
  | RevokeLicense request_io "string option" "RevokeLicenseRequest option"
  | IssueLicense request_io "string option" "IssueLicenseRequest option"
  | GenerateFreeLicense request_io "string option option"
  | GenerateProLicense request_io "string option option"
  | GetLicenseToken request_io "string option option"

fun serve :: "process_env \<Rightarrow> database \<Rightarrow> api_call \<Rightarrow> database" where
  "serve env db (VerifyLicense io request) = snd (verify_license_POST env io db request)"
| "serve env db (RevokeLicense io providedToken request) =
     snd (revoke_license_POST env io providedToken db request)"
| "serve env db (IssueLicense io providedToken request) =
     snd (issue_license_POST env io providedToken db request)"
| "serve env db (GenerateFreeLicense io request) =
     snd (generate_free_license_POST env io db request)"
| "serve env db (GenerateProLicense io request) =
     snd (generate_pro_license_POST env io db request)"
| "serve env db (GetLicenseToken io request) = db"

definition serve_all :: "process_env \<Rightarrow> database \<Rightarrow> api_call list \<Rightarrow> database" where
  "serve_all env db calls = foldl (serve env) db calls"

section \<open>Conditions on a verification request\<close>

text \<open>The request carries the token \<open>j\<close>, whose \<^verbatim>\<open>jti\<close> is not empty, and the lookup by
  that \<^verbatim>\<open>jti\<close> answers with the row \<open>l\<close>.\<close>

definition finds_license ::
  "request_io \<Rightarrow> database \<Rightarrow> VerifyLicenseRequest \<Rightarrow> jws \<Rightarrow> license \<Rightarrow> bool" where
  "finds_license io db body j l =
     (token body = Some (Jws j) \<and> jti (payload j) \<noteq> []
      \<and> select_single (\<lambda>r. license_key r = jti (payload j)) (licenses db) (select_error io)
          = Some l)"

text \<open>The token \<open>j\<close> carries a signature of the configured public key, the algorithm
  RS256 and the configured issuer and audience: it is valid but for its expiry.\<close>

definition well_signed :: "process_env \<Rightarrow> jws \<Rightarrow> bool" where
  "well_signed env j =
     (loadPublicKey env = Inr (PublicKeyPem (signed_by j)) \<and> alg j = ''RS256''
      \<and> iss j = or_default (JWT_ISSUER env) ''levox-license-server''
      \<and> aud j = or_default (JWT_AUDIENCE env) ''levox-cli'')"

text \<open>The request passes every check before the device admission: its license \<open>l\<close> is
  found, unrevoked and unexpired, and its token verifies.\<close>

definition passes_checks ::
  "process_env \<Rightarrow> request_io \<Rightarrow> database \<Rightarrow> VerifyLicenseRequest \<Rightarrow> license \<Rightarrow> bool" where
  "passes_checks env io db body l =
     (case token body of
        Some (Jws j) \<Rightarrow>
          finds_license io db body j l \<and> \<not> revoked l \<and> \<not> record_expired l (now io)
          \<and> (case verifyLicenseToken env (Jws j) (now io) of Inl _ \<Rightarrow> False | Inr _ \<Rightarrow> True)
      | _ \<Rightarrow> False)"

text \<open>The activation rows the handler logs for a device it binds and for one it refuses.\<close>

definition bound_event :: "request_io \<Rightarrow> string \<Rightarrow> string \<Rightarrow> license_activation" where
  "bound_event io k f =
     \<lparr>activation_license_key = k, activation_device_fingerprint = f,
      meta_timestamp = now io, meta_success = True, meta_device_limit_exceeded = False\<rparr>"

definition refused_event :: "request_io \<Rightarrow> string \<Rightarrow> string \<Rightarrow> license_activation" where
  "refused_event io k f =
     \<lparr>activation_license_key = k, activation_device_fingerprint = f,
      meta_timestamp = now io, meta_success = False, meta_device_limit_exceeded = True\<rparr>"

text \<open>The table after \<^verbatim>\<open>current_devices\<close> of the rows with key \<open>k\<close> is set to \<open>ds\<close>.\<close>

definition with_devices :: "string \<Rightarrow> string list \<Rightarrow> license list \<Rightarrow> license list" where
  "with_devices k ds rows =
     map (\<lambda>r. if license_key r = k then r\<lparr>current_devices := Some ds\<rparr> else r) rows"

section \<open>A concrete deployment\<close>

text \<open>
  A production environment with key pair 1, a runtime in UTC whose year has 365 days,
  and the license of the specification's scenario: device limit 1, issued at second
  1000 for 30 days.
\<close>

definition demo_env :: process_env where
  "demo_env =
     \<lparr>ADMIN_ISSUE_TOKEN = Some ''admin-secret'',
      PRIVATE_KEY_PATH = Some ''./private_key.pem'',
      PUBLIC_KEY_PATH = Some ''./public_key.pem'',
      NODE_ENV = Some ''production'',
      PRIVATE_KEY = Some (PrivateKeyPem 1), PUBLIC_KEY = Some (PublicKeyPem 1),
      JWT_ISSUER = None, JWT_AUDIENCE = None, readFileSync = (\<lambda>p. None)\<rparr>"

definition demo_io :: "int \<Rightarrow> request_io" where
  "demo_io t =
     \<lparr>now = t, uuidv4 = ''0b7e6a52-fresh'',
      plus_one_year = (\<lambda>t. t + 31536000000), plus_days = (\<lambda>t d. t + d * 86400000),
      select_error = False, update_error = False, insert_error = False,
      activation_insert_error = False\<rparr>"

definition demo_claims :: LicensePayload where
  "demo_claims =
     \<lparr>lic = ''LVX'', sub = ''dev@levox.dev'', jti = ''key-1'', tier = ''pro'',
      payload_device_limit = 1, iat = 1000, exp = 2593000\<rparr>"

definition demo_jws :: jws where
  "demo_jws =
     \<lparr>alg = ''RS256'', payload = demo_claims, iss = ''levox-license-server'',
      aud = ''levox-cli'', signed_by = 1\<rparr>"

definition demo_license :: license where
  "demo_license =
     \<lparr>license_key = ''key-1'', jwt = Jws demo_jws, email = ''dev@levox.dev'', plan = ''pro'',
      device_limit = 1, current_devices = Some [], expires_at = Some 2593000000,
      revoked = False\<rparr>"

definition demo_db :: database where
  "demo_db = \<lparr>licenses = [demo_license], license_activations = []\<rparr>"

definition demo_request :: "js_value \<Rightarrow> VerifyLicenseRequest" where
  "demo_request fingerprint = \<lparr>token = Some (Jws demo_jws), device_fingerprint = fingerprint\<rparr>"

text \<open>The same license and database once the device \<^verbatim>\<open>device-aaa111\<close> is bound.\<close>

definition demo_license_bound :: license where
  "demo_license_bound = demo_license\<lparr>current_devices := Some [''device-aaa111'']\<rparr>"

definition demo_db_bound :: database where
  "demo_db_bound =
     \<lparr>licenses = [demo_license_bound],
      license_activations = [bound_event (demo_io 5000) ''key-1'' ''device-aaa111'']\<rparr>"

section \<open>Conditions on a series of verification requests\<close>

text \<open>What an answer reports about the admission of the request's device.\<close>

definition reports_admitted :: "verify_data api_response \<Rightarrow> bool" where
  "reports_admitted r = (case r of Failure _ _ \<Rightarrow> False | Success d \<Rightarrow> \<not> device_limit_exceeded d)"

definition reports_limit_exceeded :: "verify_data api_response \<Rightarrow> bool" where
  "reports_limit_exceeded r = (case r of Failure _ _ \<Rightarrow> False | Success d \<Rightarrow> device_limit_exceeded d)"

text \<open>
  One request of a series on the license \<open>l\<close> with the token \<open>j\<close>, given by its runtime
  record and its raw fingerprint: storage answers its select and update, the license is
  unexpired at its time, the token verifies at its time and the fingerprint normalises.
\<close>

definition call_ok :: "process_env \<Rightarrow> license \<Rightarrow> jws \<Rightarrow> request_io \<times> js_value \<Rightarrow> bool" where
  "call_ok env l j c =
     (\<not> select_error (fst c) \<and> \<not> update_error (fst c) \<and> \<not> record_expired l (now (fst c))
      \<and> (case verifyLicenseToken env (Jws j) (now (fst c)) of Inl _ \<Rightarrow> False | Inr _ \<Rightarrow> True)
      \<and> (case normalizeDeviceFingerprint (snd c) of Inl _ \<Rightarrow> False | Inr _ \<Rightarrow> True))"

definition fingerprint_of :: "request_io \<times> js_value \<Rightarrow> string" where
  "fingerprint_of c = (case normalizeDeviceFingerprint (snd c) of Inl _ \<Rightarrow> [] | Inr f \<Rightarrow> f)"

definition request_of :: "jws \<Rightarrow> request_io \<times> js_value \<Rightarrow> request_io \<times> VerifyLicenseRequest option" where
  "request_of j c = (fst c, Some \<lparr>token = Some (Jws j), device_fingerprint = snd c\<rparr>)"

text \<open>The device lists stored under the key \<open>k\<close>.\<close>

definition stored_devices :: "database \<Rightarrow> string \<Rightarrow> string list list" where
  "stored_devices db k = map devices_of (filter (\<lambda>r. license_key r = k) (licenses db))"

text \<open>The key \<open>k\<close> has exactly one row, and that row is revoked.\<close>

definition revoked_in :: "database \<Rightarrow> string \<Rightarrow> bool" where
  "revoked_in db k =
     (case filter (\<lambda>r. license_key r = k) (licenses db) of [r] \<Rightarrow> revoked r | _ \<Rightarrow> False)"

text \<open>A second license of the deployment: the enterprise license of another address,
  revoked.\<close>

definition demo_revoked_license :: license where
  "demo_revoked_license =
     \<lparr>license_key = ''key-2'',
      jwt = Jws (demo_jws\<lparr>payload := demo_claims\<lparr>sub := ''old@levox.dev'', jti := ''key-2'',
                                                 tier := ''enterprise''\<rparr>\<rparr>),
      email = ''old@levox.dev'', plan = ''enterprise'', device_limit = 1,
      current_devices = Some [], expires_at = Some 2593000000, revoked = True\<rparr>"

section \<open>Properties of the fingerprint normaliser\<close>

lemma alphabet_codes:
  "canonical_alphabet = char_of ` ({97..122} \<union> {48..57} \<union> {45, 95 :: nat})"
  unfolding canonical_alphabet_def by code_simp

lemma in_class_codes:
  "in_class c \<longleftrightarrow> (of_char c :: nat) \<in> {97..122} \<union> {48..57} \<union> {45, 95}"
  unfolding in_class_def Let_def by (simp only: Un_iff atLeastAtMost_iff insert_iff empty_iff) blast

lemma in_class_alphabet: "in_class c \<longleftrightarrow> c \<in> canonical_alphabet"
proof
  assume "in_class c"
  then have "char_of (of_char c :: nat) \<in> char_of ` ({97..122} \<union> {48..57} \<union> {45, 95 :: nat})"
    unfolding in_class_codes by (rule imageI)
  then show "c \<in> canonical_alphabet" by (simp only: alphabet_codes char_of_char)
next
  assume "c \<in> canonical_alphabet"
  then obtain n :: nat where c: "c = char_of n" and n: "n \<in> {97..122} \<union> {48..57} \<union> {45, 95}"
    unfolding alphabet_codes by blast
  from n have "n < 256" by auto
  then have "(of_char c :: nat) = n" by (simp add: c)
  with n show "in_class c" unfolding in_class_codes by simp
qed

lemma in_class_lower: "in_class c \<Longrightarrow> toLowerCase_char c = c"
  by (auto simp: in_class_def toLowerCase_char_def Let_def)

lemma in_class_not_space: "in_class c \<Longrightarrow> \<not> isWhiteSpace c"
  by (auto simp: in_class_def isWhiteSpace_def Let_def)

lemma space_lower: "isWhiteSpace c \<Longrightarrow> toLowerCase_char c = c"
  by (auto simp: toLowerCase_char_def isWhiteSpace_def Let_def)

lemma filter_dropWhile_none:
  "(\<And>x. P x \<Longrightarrow> \<not> Q x) \<Longrightarrow> filter Q (dropWhile P xs) = filter Q xs"
  by (induction xs) auto

lemma strip_trim:
  "replace_outside_class (toLowerCase (trim s)) = replace_outside_class (toLowerCase s)"
proof -
  have sp: "\<And>c. isWhiteSpace c \<Longrightarrow> \<not> in_class (toLowerCase_char c)"
    using in_class_not_space space_lower by metis
  have 1: "\<And>xs. filter (in_class \<circ> toLowerCase_char) (dropWhile isWhiteSpace xs)
             = filter (in_class \<circ> toLowerCase_char) xs"
    by (rule filter_dropWhile_none) (simp add: sp)
  have "filter (in_class \<circ> toLowerCase_char) (trim s) = filter (in_class \<circ> toLowerCase_char) s"
    unfolding trim_def
    by (metis 1 rev_filter rev_rev_ident)
  then show ?thesis
    by (simp add: replace_outside_class_def toLowerCase_def filter_map)
qed

lemma normalize_string:
  "normalizeDeviceFingerprint (JString s) =
     (if s = [] then Inl ''Invalid device fingerprint provided''
      else if length (canon s) < 8 then Inl ''Device fingerprint must be at least 8 characters long''
      else Inr (take 128 (canon s)))"
  by (simp add: normalizeDeviceFingerprint_def Let_def strip_trim substring_def canon_def)

lemma canon_fixed: "list_all in_class s \<Longrightarrow> canon s = s"
  by (induction s) (auto simp: canon_def replace_outside_class_def toLowerCase_def in_class_lower)

lemma canon_in_class: "list_all in_class (canon s)"
  by (simp add: canon_def replace_outside_class_def list_all_iff)

text \<open>
  Claim C6.  For every raw input the code's normaliser does what the specification's
  \<open>Normalize\<close> says: it trims surrounding white space, lowercases and strips every
  character outside \<open>[a-z0-9_-]\<close>; it fails with the too-short error when fewer than 8
  characters remain, truncates to 128 characters without failing, and fails with the
  invalid-input error when the input is empty or not a string.
\<close>

theorem normalize_refines_spec:
  "normalizeDeviceFingerprint raw =
     (case Normalize raw of Inl e \<Rightarrow> Inl (thrown_message e) | Inr c \<Rightarrow> Inr c)"
proof (cases raw)
  case (JString s)
  have "filter (\<lambda>c. c \<in> canonical_alphabet) (map toLowerCase_char (trim s))
          = replace_outside_class (toLowerCase (trim s))"
    by (simp add: replace_outside_class_def toLowerCase_def in_class_alphabet [symmetric])
  then show ?thesis
    by (simp add: JString normalizeDeviceFingerprint_def Normalize_def thrown_message_def
        Let_def substring_def)
qed (simp_all add: normalizeDeviceFingerprint_def Normalize_def thrown_message_def)

lemma canon_idem: "canon (take n (canon s)) = take n (canon s)"
proof -
  have "list_all in_class (take n (canon s))"
    using canon_in_class [of s] by (auto simp: list_all_iff dest: in_set_takeD)
  then show ?thesis by (rule canon_fixed)
qed

lemma canon_append: "canon (a @ b) = canon a @ canon b"
  by (simp add: canon_def replace_outside_class_def toLowerCase_def)

lemma canon_spaces: "list_all isWhiteSpace l \<Longrightarrow> canon l = []"
  by (induction l) (auto simp: canon_def replace_outside_class_def toLowerCase_def
      in_class_not_space space_lower)

lemma canon_extraneous:
  "list_all (\<lambda>p. \<not> in_class (toLowerCase_char p)) ps \<Longrightarrow> canon ps = []"
  by (induction ps) (auto simp: canon_def replace_outside_class_def toLowerCase_def)

text \<open>
  Claim C8.  Normalisation is idempotent: on a successful result it returns that result
  again.  Two non-empty raw inputs that differ only by case, only by surrounding white
  space, or only by extraneous characters (punctuation: characters that are outside the
  alphabet also when lowercased) inserted somewhere have the same normalisation.  The
  normaliser is a function of its argument alone.
\<close>

theorem normalize_idempotent:
  "(normalizeDeviceFingerprint (JString x) = Inr c \<longrightarrow>
      normalizeDeviceFingerprint (JString c) = Inr c)
   \<and> (x \<noteq> [] \<and> toLowerCase x = toLowerCase y \<longrightarrow>
      normalizeDeviceFingerprint (JString x) = normalizeDeviceFingerprint (JString y))
   \<and> (x \<noteq> [] \<and> list_all isWhiteSpace l \<and> list_all isWhiteSpace r \<longrightarrow>
      normalizeDeviceFingerprint (JString (l @ x @ r)) = normalizeDeviceFingerprint (JString x))
   \<and> (a @ b \<noteq> [] \<and> list_all (\<lambda>p. \<not> in_class (toLowerCase_char p)) ps \<longrightarrow>
      normalizeDeviceFingerprint (JString (a @ ps @ b)) = normalizeDeviceFingerprint (JString (a @ b)))"
proof (intro conjI impI)
  assume ok: "normalizeDeviceFingerprint (JString x) = Inr c"
  then have c: "c = take 128 (canon x)" and len: "8 \<le> length (canon x)"
    by (auto simp: normalize_string split: if_splits)
  have "canon c = c" unfolding c by (rule canon_idem)
  moreover have "8 \<le> length c" using len by (simp add: c)
  moreover have "length c \<le> 128" by (simp add: c)
  ultimately show "normalizeDeviceFingerprint (JString c) = Inr c"
    by (auto simp: normalize_string)
next
  assume "x \<noteq> [] \<and> toLowerCase x = toLowerCase y"
  then have "x \<noteq> []" "y \<noteq> []" "canon x = canon y"
    by (auto simp: canon_def toLowerCase_def)
  then show "normalizeDeviceFingerprint (JString x) = normalizeDeviceFingerprint (JString y)"
    by (simp add: normalize_string)
next
  assume "x \<noteq> [] \<and> list_all isWhiteSpace l \<and> list_all isWhiteSpace r"
  then have "x \<noteq> []" "canon (l @ x @ r) = canon x"
    by (simp_all add: canon_append canon_spaces)
  then show "normalizeDeviceFingerprint (JString (l @ x @ r)) = normalizeDeviceFingerprint (JString x)"
    by (simp add: normalize_string)
next
  assume h: "a @ b \<noteq> [] \<and> list_all (\<lambda>p. \<not> in_class (toLowerCase_char p)) ps"
  then have "canon ps = []"
    by (simp add: canon_extraneous)
  then have "canon (ps @ b) = canon b"
    by (simp only: canon_append append_Nil)
  then have "canon (a @ ps @ b) = canon (a @ b)"
    by (simp only: canon_append)
  with h show "normalizeDeviceFingerprint (JString (a @ ps @ b)) = normalizeDeviceFingerprint (JString (a @ b))"
    by (simp add: normalize_string)
qed

theorem normalize_refines_spec_witness:
  "Normalize (JString ''  Device-AAA_111!! '') = Inr ''device-aaa_111''
   \<and> normalizeDeviceFingerprint (JString ''  Device-AAA_111!! '') = Inr ''device-aaa_111''
   \<and> Normalize (JString ''abc'') = Inl TooShort
   \<and> normalizeDeviceFingerprint (JString ''abc'') = Inl ''Device fingerprint must be at least 8 characters long''
   \<and> normalizeDeviceFingerprint (JNumber 5) = Inl ''Invalid device fingerprint provided''"
proof -
  have 1: "Normalize (JString ''  Device-AAA_111!! '') = Inr ''device-aaa_111''" by code_simp
  have 2: "Normalize (JString ''abc'') = Inl TooShort" by code_simp
  have 3: "Normalize (JNumber 5) = Inl Empty" by code_simp
  show ?thesis
    using normalize_refines_spec [of "JString ''  Device-AAA_111!! ''"]
      normalize_refines_spec [of "JString ''abc''"]
      normalize_refines_spec [of "JNumber 5"] 1 2 3
    by (simp add: thrown_message_def)
qed

theorem normalize_idempotent_witness:
  "normalizeDeviceFingerprint (JString '' Device-AAA111'') = Inr ''device-aaa111''
   \<and> normalizeDeviceFingerprint (JString ''device-aaa111'') = Inr ''device-aaa111''
   \<and> normalizeDeviceFingerprint (JString ''DEVICE-AAA111'') = Inr ''device-aaa111''
   \<and> normalizeDeviceFingerprint (JString ''device:!-aaa111'') = Inr ''device-aaa111''"
proof -
  have 1: "normalizeDeviceFingerprint (JString ''device-aaa111'') = Inr ''device-aaa111''"
    by code_simp
  have 2: "''device-aaa111'' \<noteq> [] \<and> toLowerCase ''device-aaa111'' = toLowerCase ''DEVICE-AAA111''"
    by code_simp
  have 3: "''Device-AAA111'' \<noteq> [] \<and> list_all isWhiteSpace '' '' \<and> list_all isWhiteSpace []"
    by code_simp
  have 4: "''device'' @ ''-aaa111'' \<noteq> []
           \<and> list_all (\<lambda>p. \<not> in_class (toLowerCase_char p)) '':!''"
  proof -
    have "\<not> in_class (toLowerCase_char CHR '':'')" by code_simp
    moreover have "\<not> in_class (toLowerCase_char CHR ''!'')" by code_simp
    ultimately show ?thesis by simp
  qed
  have 5: "''device-aaa111'' \<noteq> [] \<and> toLowerCase ''device-aaa111'' = toLowerCase ''Device-AAA111''"
    by code_simp
  have a: "normalizeDeviceFingerprint (JString ''device-aaa111'') = Inr ''device-aaa111''"
    by (rule normalize_idempotent [THEN conjunct1, THEN mp, OF 1])
  have b: "normalizeDeviceFingerprint (JString ''device-aaa111'')
           = normalizeDeviceFingerprint (JString ''DEVICE-AAA111'')"
    by (rule normalize_idempotent [THEN conjunct2, THEN conjunct1, THEN mp, OF 2])
  have c: "normalizeDeviceFingerprint (JString ('' '' @ ''Device-AAA111'' @ []))
           = normalizeDeviceFingerprint (JString ''Device-AAA111'')"
    by (rule normalize_idempotent [THEN conjunct2, THEN conjunct2, THEN conjunct1, THEN mp, OF 3])
  have d: "normalizeDeviceFingerprint (JString (''device'' @ '':!'' @ ''-aaa111''))
           = normalizeDeviceFingerprint (JString (''device'' @ ''-aaa111''))"
    by (rule normalize_idempotent [THEN conjunct2, THEN conjunct2, THEN conjunct2, THEN mp, OF 4])
  have e: "normalizeDeviceFingerprint (JString ''device-aaa111'')
           = normalizeDeviceFingerprint (JString ''Device-AAA111'')"
    by (rule normalize_idempotent [THEN conjunct2, THEN conjunct1, THEN mp, OF 5])
  have c': "normalizeDeviceFingerprint (JString '' Device-AAA111'')
            = normalizeDeviceFingerprint (JString ''Device-AAA111'')"
    using c by simp
  have d': "normalizeDeviceFingerprint (JString ''device:!-aaa111'')
            = normalizeDeviceFingerprint (JString ''device-aaa111'')"
    using d by simp
  show ?thesis
    unfolding c' d' e [symmetric] b [symmetric] a by simp
qed

section \<open>Properties of the verify route\<close>

lemma select_single_found:
  "filter matches rows = [r] \<Longrightarrow> select_single matches rows False = Some r"
  by (simp add: select_single_def)

lemma select_single_Some:
  "select_single matches rows fails = Some r \<Longrightarrow> \<not> fails \<and> filter matches rows = [r]"
  by (auto simp: select_single_def split: if_splits list.splits)

lemma verify_reads:
  assumes "token body = Some (Jws j)" and "jti (payload j) = k" and "k \<noteq> []"
    and "select_single (\<lambda>r. license_key r = k) (licenses db) (select_error io) = Some L"
  shows "verify_before_write env io db (Some body) =
     (if revoked L then Inl (Failure 403 ''License has been revoked'')
      else if record_expired L (now io) then Inl (Failure 403 ''License has expired'')
      else case verifyLicenseToken env (Jws j) (now io) of
        Inl e \<Rightarrow> Inl (Failure 403 ''Invalid license token signature'')
      | Inr v \<Rightarrow>
         if \<not> truthy (device_fingerprint body)
         then Inl (verification_result L (length (devices_of L)) False)
         else case normalizeDeviceFingerprint (device_fingerprint body) of
           Inl thrown \<Rightarrow> Inl (Failure 500 ''Internal server error'')
         | Inr f \<Rightarrow>
             if f \<in> set (devices_of L)
             then Inl (verification_result L (length (devices_of L)) False)
             else Inr \<lparr>att_licenseKey = k, att_license = L, att_normalizedFingerprint = f,
                       att_currentDevicesCount = length (devices_of L)\<rparr>)"
  using assms
  by (simp add: verify_before_write_def token_missing_def jwt_decode_def Let_def
      split: sum.splits)

lemma normalize_truthy:
  "normalizeDeviceFingerprint v = Inr f \<Longrightarrow> truthy v"
  by (auto simp: normalizeDeviceFingerprint_def split: if_splits)

lemma filter_update_rows:
  assumes "filter (\<lambda>r. license_key r = k) rows = [L]"
  shows "filter (\<lambda>r. license_key r = k)
           (map (\<lambda>r. if license_key r = k then r\<lparr>current_devices := ds\<rparr> else r) rows)
         = [L\<lparr>current_devices := ds\<rparr>]"
proof -
  have "filter (\<lambda>r. license_key r = k)
           (map (\<lambda>r. if license_key r = k then r\<lparr>current_devices := ds\<rparr> else r) rows)
        = map (\<lambda>r. r\<lparr>current_devices := ds\<rparr>) (filter (\<lambda>r. license_key r = k) rows)"
    by (induction rows) auto
  with assms show ?thesis by simp
qed


lemma update_rows_ok:
  "update_rows (\<lambda>r. license_key r = k) (\<lambda>r. r\<lparr>current_devices := Some ds\<rparr>) rows False
     = (False, with_devices k ds rows)"
  by (simp add: update_rows_def with_devices_def)

lemma verify_write_eq:
  "verify_write io db \<lparr>att_licenseKey = k, att_license = L, att_normalizedFingerprint = f,
                        att_currentDevicesCount = n\<rparr> =
     (if int n < device_limit L
      then (verification_result L (if update_error io then n else length (devices_of L) + 1) False,
            insert_activation (bound_event io k f)
              (db\<lparr>licenses := (if update_error io then licenses db
                                else with_devices k (devices_of L @ [f]) (licenses db))\<rparr>)
              (activation_insert_error io))
      else (verification_result L n True,
            insert_activation (refused_event io k f) db (activation_insert_error io)))"
  by (simp add: verify_write_def Let_def update_rows_def with_devices_def bound_event_def
      refused_event_def)

lemma passes_checksD:
  assumes "passes_checks env io db body L"
  obtains j v where "token body = Some (Jws j)" "jti (payload j) \<noteq> []"
    "select_single (\<lambda>r. license_key r = jti (payload j)) (licenses db) (select_error io) = Some L"
    "\<not> revoked L" "\<not> record_expired L (now io)"
    "verifyLicenseToken env (Jws j) (now io) = Inr v"
  using assms
  by (auto simp: passes_checks_def finds_license_def split: option.splits token.splits sum.splits)

lemma found_key:
  "select_single (\<lambda>r. license_key r = k) rows fails = Some L \<Longrightarrow> license_key L = k"
proof -
  assume "select_single (\<lambda>r. license_key r = k) rows fails = Some L"
  then have "filter (\<lambda>r. license_key r = k) rows = [L]"
    by (simp add: select_single_Some)
  then have "L \<in> set (filter (\<lambda>r. license_key r = k) rows)" by simp
  then show ?thesis by simp
qed

lemma verify_admits:
  assumes pass: "passes_checks env io db body L"
    and fp: "normalizeDeviceFingerprint (device_fingerprint body) = Inr f"
  shows "verify_license_POST env io db (Some body) =
     (if f \<in> set (devices_of L)
      then (verification_result L (length (devices_of L)) False, db)
      else if int (length (devices_of L)) < device_limit L
      then (verification_result L
              (if update_error io then length (devices_of L) else length (devices_of L) + 1) False,
            insert_activation (bound_event io (license_key L) f)
              (db\<lparr>licenses := (if update_error io then licenses db
                  else with_devices (license_key L) (devices_of L @ [f]) (licenses db))\<rparr>)
              (activation_insert_error io))
      else (verification_result L (length (devices_of L)) True,
            insert_activation (refused_event io (license_key L) f) db
              (activation_insert_error io)))"
proof -
  from pass obtain j v where j: "token body = Some (Jws j)" "jti (payload j) \<noteq> []"
    and sel: "select_single (\<lambda>r. license_key r = jti (payload j)) (licenses db) (select_error io) = Some L"
    and ok: "\<not> revoked L" "\<not> record_expired L (now io)"
      "verifyLicenseToken env (Jws j) (now io) = Inr v"
    by (rule passes_checksD)
  have key: "license_key L = jti (payload j)" using sel by (rule found_key)
  have t: "truthy (device_fingerprint body)" using fp by (rule normalize_truthy)
  have r: "verify_before_write env io db (Some body) =
      (if f \<in> set (devices_of L)
       then Inl (verification_result L (length (devices_of L)) False)
       else Inr \<lparr>att_licenseKey = license_key L, att_license = L, att_normalizedFingerprint = f,
                 att_currentDevicesCount = length (devices_of L)\<rparr>)"
    using verify_reads [OF j(1) refl j(2) sel, of env] ok t fp by (simp add: key)
  show ?thesis
  proof (cases "f \<in> set (devices_of L)")
    case True
    then show ?thesis by (simp add: verify_license_POST_def r)
  next
    case False
    then show ?thesis by (simp add: verify_license_POST_def r verify_write_eq)
  qed
qed

lemma with_devices_found:
  assumes "select_single (\<lambda>r. license_key r = k) rows fails = Some L"
  shows "select_single (\<lambda>r. license_key r = k) (with_devices k ds rows) False
           = Some (L\<lparr>current_devices := Some ds\<rparr>)"
proof -
  from assms have "filter (\<lambda>r. license_key r = k) rows = [L]" by (simp add: select_single_Some)
  then have "filter (\<lambda>r. license_key r = k) (with_devices k ds rows) = [L\<lparr>current_devices := Some ds\<rparr>]"
    unfolding with_devices_def by (rule filter_update_rows)
  then show ?thesis by (rule select_single_found)
qed

lemma licenses_insert_activation [simp]:
  "licenses (insert_activation e db fails) = licenses db"
  by (simp add: insert_activation_def)

text \<open>
  Claim C1, amended.  A verification call that carries a device fingerprint, on a license that is
  found, unrevoked and unexpired, with a token that verifies, a fingerprint that
  normalises to \<open>f\<close> and a storage update that succeeds, has exactly one of three
  outcomes.  If \<open>f\<close> is already in the record's device list, the answer reports the
  unchanged count and nothing is written (already bound).  Otherwise, if the count is
  strictly below \<open>device_limit\<close>, the answer reports the count plus one with
  \<open>device_limit_exceeded\<close> false and the stored record has \<open>f\<close> appended (bound).
  Otherwise the answer reports the unchanged count with \<open>device_limit_exceeded\<close> true and
  the table of licenses is unchanged (limit exceeded).
\<close>

theorem admission_outcomes:
  assumes "passes_checks env io db body L"
    and "normalizeDeviceFingerprint (device_fingerprint body) = Inr f"
    and "\<not> update_error io"
  shows "(f \<in> set (devices_of L) \<longrightarrow>
            verify_license_POST env io db (Some body)
              = (verification_result L (length (devices_of L)) False, db))
       \<and> (f \<notin> set (devices_of L) \<and> int (length (devices_of L)) < device_limit L \<longrightarrow>
            fst (verify_license_POST env io db (Some body))
              = verification_result L (length (devices_of L) + 1) False
            \<and> select_single (\<lambda>r. license_key r = license_key L)
                (licenses (snd (verify_license_POST env io db (Some body)))) False
              = Some (L\<lparr>current_devices := Some (devices_of L @ [f])\<rparr>))
       \<and> (f \<notin> set (devices_of L) \<and> \<not> int (length (devices_of L)) < device_limit L \<longrightarrow>
            fst (verify_license_POST env io db (Some body))
              = verification_result L (length (devices_of L)) True
            \<and> licenses (snd (verify_license_POST env io db (Some body))) = licenses db)"
proof -
  from assms(1) obtain j :: jws where
    sel: "select_single (\<lambda>r. license_key r = jti (payload j)) (licenses db) (select_error io) = Some L"
    by (rule passes_checksD) blast
  have key: "license_key L = jti (payload j)" using sel by (rule found_key)
  have upd: "select_single (\<lambda>r. license_key r = license_key L)
       (with_devices (license_key L) (devices_of L @ [f]) (licenses db)) False
     = Some (L\<lparr>current_devices := Some (devices_of L @ [f])\<rparr>)"
    using sel unfolding key by (rule with_devices_found)
  show ?thesis
    using verify_admits [OF assms(1,2)] assms(3) upd by simp
qed

text \<open>
  Claim C9.  When the storage update that appends a new fingerprint fails, the call still
  answers successfully: \<open>valid\<close> is true, \<open>device_limit_exceeded\<close> is false and the device
  count is the one from before the attempt.  The answer is built from the license row
  alone and has no field for the failure; the stored licenses are unchanged.
\<close>

theorem update_failure_hidden:
  assumes "passes_checks env io db body L"
    and "normalizeDeviceFingerprint (device_fingerprint body) = Inr f"
    and "f \<notin> set (devices_of L)" and "int (length (devices_of L)) < device_limit L"
    and "update_error io"
  shows "fst (verify_license_POST env io db (Some body))
           = Success \<lparr>valid = True, data_tier = plan L, data_expires_at = expires_at L,
                      data_device_limit = device_limit L,
                      current_devices_count = length (devices_of L),
                      device_limit_exceeded = False\<rparr>
       \<and> licenses (snd (verify_license_POST env io db (Some body))) = licenses db"
  using verify_admits [OF assms(1,2)] assms(3,4,5)
  by (simp add: verification_result_def)


theorem admission_outcomes_witness:
  "verify_license_POST demo_env (demo_io 5000) demo_db
      (Some (demo_request (JString ''device-aaa111'')))
     = (verification_result demo_license 1 False, demo_db_bound)
   \<and> verify_license_POST demo_env (demo_io 6000) demo_db_bound
      (Some (demo_request (JString '' Device-AAA111'')))
     = (verification_result demo_license_bound 1 False, demo_db_bound)
   \<and> fst (verify_license_POST demo_env (demo_io 7000) demo_db_bound
      (Some (demo_request (JString ''device-bbb222''))))
     = verification_result demo_license_bound 1 True
   \<and> licenses (snd (verify_license_POST demo_env (demo_io 7000) demo_db_bound
      (Some (demo_request (JString ''device-bbb222''))))) = licenses demo_db_bound"
proof -
  have p1: "passes_checks demo_env (demo_io 5000) demo_db
              (demo_request (JString ''device-aaa111'')) demo_license"
    by code_simp
  have n1: "normalizeDeviceFingerprint
              (device_fingerprint (demo_request (JString ''device-aaa111'')))
            = Inr ''device-aaa111''"
    by code_simp
  have u1: "\<not> update_error (demo_io 5000)" by code_simp
  have c1: "''device-aaa111'' \<notin> set (devices_of demo_license)
            \<and> int (length (devices_of demo_license)) < device_limit demo_license
            \<and> length (devices_of demo_license) + 1 = 1"
    by code_simp
  have p2: "passes_checks demo_env (demo_io 6000) demo_db_bound
              (demo_request (JString '' Device-AAA111'')) demo_license_bound"
    by code_simp
  have n2: "normalizeDeviceFingerprint
              (device_fingerprint (demo_request (JString '' Device-AAA111'')))
            = Inr ''device-aaa111''"
    by code_simp
  have u2: "\<not> update_error (demo_io 6000)" by code_simp
  have c2: "''device-aaa111'' \<in> set (devices_of demo_license_bound)
            \<and> length (devices_of demo_license_bound) = 1"
    by code_simp
  have p3: "passes_checks demo_env (demo_io 7000) demo_db_bound
              (demo_request (JString ''device-bbb222'')) demo_license_bound"
    by code_simp
  have n3: "normalizeDeviceFingerprint
              (device_fingerprint (demo_request (JString ''device-bbb222'')))
            = Inr ''device-bbb222''"
    by code_simp
  have u3: "\<not> update_error (demo_io 7000)" by code_simp
  have c3: "''device-bbb222'' \<notin> set (devices_of demo_license_bound)
            \<and> \<not> int (length (devices_of demo_license_bound)) < device_limit demo_license_bound"
    by code_simp
  have d1: "snd (verify_license_POST demo_env (demo_io 5000) demo_db
      (Some (demo_request (JString ''device-aaa111'')))) = demo_db_bound"
    by code_simp
  show ?thesis
    using admission_outcomes [OF p1 n1 u1] admission_outcomes [OF p2 n2 u2]
      admission_outcomes [OF p3 n3 u3] c1 c2 c3 d1
    by (simp add: prod_eq_iff)
qed


theorem update_failure_hidden_witness:
  "fst (verify_license_POST demo_env ((demo_io 5000)\<lparr>update_error := True\<rparr>) demo_db
          (Some (demo_request (JString ''device-aaa111''))))
     = Success \<lparr>valid = True, data_tier = ''pro'', data_expires_at = Some 2593000000,
                data_device_limit = 1, current_devices_count = 0,
                device_limit_exceeded = False\<rparr>
   \<and> licenses (snd (verify_license_POST demo_env ((demo_io 5000)\<lparr>update_error := True\<rparr>)
          demo_db (Some (demo_request (JString ''device-aaa111''))))) = [demo_license]"
proof -
  have p: "passes_checks demo_env ((demo_io 5000)\<lparr>update_error := True\<rparr>) demo_db
              (demo_request (JString ''device-aaa111'')) demo_license"
    by code_simp
  have n: "normalizeDeviceFingerprint
              (device_fingerprint (demo_request (JString ''device-aaa111'')))
            = Inr ''device-aaa111''"
    by code_simp
  have c: "''device-aaa111'' \<notin> set (devices_of demo_license)" by code_simp
  have l: "int (length (devices_of demo_license)) < device_limit demo_license" by code_simp
  have u: "update_error ((demo_io 5000)\<lparr>update_error := True\<rparr>)" by code_simp
  have v: "plan demo_license = ''pro'' \<and> expires_at demo_license = Some 2593000000
           \<and> device_limit demo_license = 1 \<and> length (devices_of demo_license) = 0
           \<and> licenses demo_db = [demo_license]"
    by code_simp
  show ?thesis
    using update_failure_hidden [OF p n c l u] v by simp
qed

text \<open>
  Claim C1 as stated fails: a call that carries a fingerprint on a found, unrevoked,
  unexpired license with a verifying token can have a fourth outcome.  A fingerprint
  that does not normalise (here \<^verbatim>\<open>abc\<close>, too short) is answered 500 and nothing is
  written; and when the storage update fails, a new fingerprint under the limit is
  answered with \<open>device_limit_exceeded\<close> false and the unchanged count, without being
  appended.
\<close>

theorem admission_outcomes_counterexample:
  "passes_checks demo_env (demo_io 5000) demo_db (demo_request (JString ''abc'')) demo_license
   \<and> truthy (device_fingerprint (demo_request (JString ''abc'')))
   \<and> verify_license_POST demo_env (demo_io 5000) demo_db (Some (demo_request (JString ''abc'')))
       = (Failure 500 ''Internal server error'', demo_db)
   \<and> passes_checks demo_env ((demo_io 5000)\<lparr>update_error := True\<rparr>) demo_db
         (demo_request (JString ''device-aaa111'')) demo_license
   \<and> ''device-aaa111'' \<notin> set (devices_of demo_license)
   \<and> int (length (devices_of demo_license)) < device_limit demo_license
   \<and> fst (verify_license_POST demo_env ((demo_io 5000)\<lparr>update_error := True\<rparr>) demo_db
         (Some (demo_request (JString ''device-aaa111''))))
       = verification_result demo_license 0 False
   \<and> licenses (snd (verify_license_POST demo_env ((demo_io 5000)\<lparr>update_error := True\<rparr>)
         demo_db (Some (demo_request (JString ''device-aaa111''))))) = [demo_license]
   \<and> current_devices demo_license = Some []"
  by code_simp

lemma verify_answer_cases:
  assumes "finds_license io db body j L" and "\<not> revoked L" and "\<not> record_expired L (now io)"
  shows "fst (verify_license_POST env io db (Some body))
           \<in> {Failure 403 ''Invalid license token signature'', Failure 500 ''Internal server error''}
         \<or> (\<exists>n x. fst (verify_license_POST env io db (Some body)) = verification_result L n x)"
proof -
  from assms(1) have f: "token body = Some (Jws j)" "jti (payload j) \<noteq> []"
    "select_single (\<lambda>r. license_key r = jti (payload j)) (licenses db) (select_error io) = Some L"
    by (simp_all add: finds_license_def)
  show ?thesis
    using verify_reads [OF f(1) refl f(2) f(3), of env] assms(2,3)
    by (auto simp: verify_license_POST_def verify_write_eq split: sum.splits)
qed

lemma verify_answer_not_expired:
  assumes "finds_license io db body j L" and "\<not> revoked L" and "\<not> record_expired L (now io)"
  shows "fst (verify_license_POST env io db (Some body)) \<noteq> Failure 403 ''License has expired''"
  using verify_answer_cases [OF assms, of env]
  by (auto simp: verification_result_def)

lemma verify_no_fingerprint:
  assumes "finds_license io db body j L" and "\<not> revoked L" and "\<not> record_expired L (now io)"
    and "verifyLicenseToken env (Jws j) (now io) = Inr v"
    and "\<not> truthy (device_fingerprint body)"
  shows "verify_license_POST env io db (Some body)
           = (verification_result L (length (devices_of L)) False, db)"
proof -
  from assms(1) have f: "token body = Some (Jws j)" "jti (payload j) \<noteq> []"
    "select_single (\<lambda>r. license_key r = jti (payload j)) (licenses db) (select_error io) = Some L"
    by (simp_all add: finds_license_def)
  show ?thesis
    using verify_reads [OF f(1) refl f(2) f(3), of env] assms(2-)
    by (simp add: verify_license_POST_def)
qed

lemma verify_token_rejected:
  assumes "finds_license io db body j L" and "\<not> revoked L" and "\<not> record_expired L (now io)"
    and "verifyLicenseToken env (Jws j) (now io) = Inl e"
  shows "verify_license_POST env io db (Some body)
           = (Failure 403 ''Invalid license token signature'', db)"
proof -
  from assms(1) have f: "token body = Some (Jws j)" "jti (payload j) \<noteq> []"
    "select_single (\<lambda>r. license_key r = jti (payload j)) (licenses db) (select_error io) = Some L"
    by (simp_all add: finds_license_def)
  show ?thesis
    using verify_reads [OF f(1) refl f(2) f(3), of env] assms(2-)
    by (simp add: verify_license_POST_def)
qed

lemma verify_record_expired:
  assumes "finds_license io db body j L" and "\<not> revoked L" and "record_expired L (now io)"
  shows "verify_license_POST env io db (Some body) = (Failure 403 ''License has expired'', db)"
proof -
  from assms(1) have f: "token body = Some (Jws j)" "jti (payload j) \<noteq> []"
    "select_single (\<lambda>r. license_key r = jti (payload j)) (licenses db) (select_error io) = Some L"
    by (simp_all add: finds_license_def)
  show ?thesis
    using verify_reads [OF f(1) refl f(2) f(3), of env] assms(2-)
    by (simp add: verify_license_POST_def)
qed

lemma token_expired_rejected:
  "exp (payload j) \<le> t div 1000 \<Longrightarrow> \<exists>e. verifyLicenseToken env (Jws j) t = Inl e"
  by (auto simp: verifyLicenseToken_def jwt_verify_def split: sum.splits)

lemma well_signed_verifies:
  "well_signed env j \<Longrightarrow> t div 1000 < exp (payload j)
     \<Longrightarrow> verifyLicenseToken env (Jws j) t = Inr j"
  by (simp add: well_signed_def verifyLicenseToken_def jwt_verify_def)

text \<open>
  Claim C10.  A license whose stored \<open>expires_at\<close> is null is never rejected as expired:
  if it is found and unrevoked, the record-level expiry check does not fire at any time,
  the answer is never the expired failure, and with a token that verifies the request
  passes every check before the admission as an unexpired license would; without a
  fingerprint it then succeeds.
\<close>

theorem null_expiry_never_expired:
  assumes "finds_license io db body j L" and "\<not> revoked L" and "expires_at L = None"
  shows "\<not> record_expired L (now io)
       \<and> fst (verify_license_POST env io db (Some body)) \<noteq> Failure 403 ''License has expired''
       \<and> (verifyLicenseToken env (Jws j) (now io) = Inr v \<longrightarrow> passes_checks env io db body L)
       \<and> (verifyLicenseToken env (Jws j) (now io) = Inr v \<and> \<not> truthy (device_fingerprint body)
            \<longrightarrow> verify_license_POST env io db (Some body)
                  = (verification_result L (length (devices_of L)) False, db))"
proof -
  have ne: "\<not> record_expired L (now io)" using assms(3) by (simp add: record_expired_def)
  have tok: "token body = Some (Jws j)" using assms(1) by (simp add: finds_license_def)
  have "verifyLicenseToken env (Jws j) (now io) = Inr v \<Longrightarrow> passes_checks env io db body L"
    using assms(1,2) ne by (simp add: passes_checks_def tok)
  then show ?thesis
    using ne verify_answer_not_expired [OF assms(1,2) ne, of env]
      verify_no_fingerprint [OF assms(1,2) ne, of env v]
    by blast
qed

text \<open>
  Claim C3, amended.  For a license that is found and unrevoked, with stored expiry
  \<open>e\<close>: the record check answers with the expired failure exactly when \<open>e\<close> is strictly
  before the current time (no grace period); at \<open>e = now\<close> it does not fire, and a token
  whose \<open>exp\<close> is \<open>e\<close> in whole seconds is then rejected by the token check, which the
  route reports as an invalid token signature; with \<open>e\<close> one second after \<open>now\<close> and a
  token that is valid but for its expiry, verification succeeds.
\<close>

theorem expiry_boundary:
  assumes "finds_license io db body j L" and "\<not> revoked L" and "expires_at L = Some e"
  shows "(e < now io \<longrightarrow>
            verify_license_POST env io db (Some body) = (Failure 403 ''License has expired'', db))
       \<and> (now io \<le> e \<longrightarrow>
            fst (verify_license_POST env io db (Some body)) \<noteq> Failure 403 ''License has expired'')
       \<and> (e = now io \<and> exp (payload j) = e div 1000 \<longrightarrow>
            verify_license_POST env io db (Some body)
              = (Failure 403 ''Invalid license token signature'', db))
       \<and> (e = now io + 1000 \<and> exp (payload j) = e div 1000 \<and> well_signed env j
            \<and> \<not> truthy (device_fingerprint body) \<longrightarrow>
            verify_license_POST env io db (Some body)
              = (verification_result L (length (devices_of L)) False, db))"
proof (intro conjI impI)
  assume "e < now io"
  then have "record_expired L (now io)" using assms(3) by (simp add: record_expired_def)
  with assms(1,2) show "verify_license_POST env io db (Some body)
      = (Failure 403 ''License has expired'', db)"
    by (rule verify_record_expired)
next
  assume "now io \<le> e"
  then have "\<not> record_expired L (now io)" using assms(3) by (simp add: record_expired_def)
  with assms(1,2) show "fst (verify_license_POST env io db (Some body))
      \<noteq> Failure 403 ''License has expired''"
    by (rule verify_answer_not_expired)
next
  assume h: "e = now io \<and> exp (payload j) = e div 1000"
  then have ne: "\<not> record_expired L (now io)" using assms(3) by (simp add: record_expired_def)
  from h have "exp (payload j) \<le> now io div 1000" by simp
  then obtain err where "verifyLicenseToken env (Jws j) (now io) = Inl err"
    using token_expired_rejected by blast
  with assms(1,2) ne show "verify_license_POST env io db (Some body)
      = (Failure 403 ''Invalid license token signature'', db)"
    by (rule verify_token_rejected)
next
  assume h: "e = now io + 1000 \<and> exp (payload j) = e div 1000 \<and> well_signed env j
            \<and> \<not> truthy (device_fingerprint body)"
  then have ne: "\<not> record_expired L (now io)" using assms(3) by (simp add: record_expired_def)
  from h have "now io div 1000 < exp (payload j)" by simp
  with h have "verifyLicenseToken env (Jws j) (now io) = Inr j"
    by (simp add: well_signed_verifies)
  with assms(1,2) ne h show "verify_license_POST env io db (Some body)
      = (verification_result L (length (devices_of L)) False, db)"
    by (simp add: verify_no_fingerprint)
qed

text \<open>
  Claim C3 as stated fails at \<open>expires_at = now\<close>: the record check does not answer
  with the expired failure.  With the token issued alongside the record the request is
  refused as an invalid signature; with a token that expires later than the record it
  succeeds.
\<close>

theorem record_expiry_counterexample:
  "expires_at demo_license = Some 2593000000
   \<and> exp (payload demo_jws) = 2593000000 div 1000
   \<and> verify_license_POST demo_env (demo_io 2593000000) demo_db (Some (demo_request JUndefined))
       = (Failure 403 ''Invalid license token signature'', demo_db)
   \<and> verify_license_POST demo_env (demo_io 2000000000)
         \<lparr>licenses = [demo_license\<lparr>expires_at := Some 2000000000\<rparr>], license_activations = []\<rparr>
         (Some (demo_request JUndefined))
       = (Success \<lparr>valid = True, data_tier = ''pro'', data_expires_at = Some 2000000000,
                   data_device_limit = 1, current_devices_count = 0,
                   device_limit_exceeded = False\<rparr>,
          \<lparr>licenses = [demo_license\<lparr>expires_at := Some 2000000000\<rparr>],
           license_activations = []\<rparr>)"
  by code_simp


theorem null_expiry_never_expired_witness:
  "verify_license_POST demo_env (demo_io 2592999000)
      \<lparr>licenses = [demo_license\<lparr>expires_at := None\<rparr>], license_activations = []\<rparr>
      (Some (demo_request JUndefined))
     = (verification_result (demo_license\<lparr>expires_at := None\<rparr>) 0 False,
        \<lparr>licenses = [demo_license\<lparr>expires_at := None\<rparr>], license_activations = []\<rparr>)
   \<and> fst (verify_license_POST demo_env (demo_io 2592999000)
      \<lparr>licenses = [demo_license\<lparr>expires_at := None\<rparr>], license_activations = []\<rparr>
      (Some (demo_request JUndefined))) \<noteq> Failure 403 ''License has expired''"
proof -
  have f: "finds_license (demo_io 2592999000)
             \<lparr>licenses = [demo_license\<lparr>expires_at := None\<rparr>], license_activations = []\<rparr>
             (demo_request JUndefined) demo_jws (demo_license\<lparr>expires_at := None\<rparr>)"
    by code_simp
  have r: "\<not> revoked (demo_license\<lparr>expires_at := None\<rparr>)" by code_simp
  have e: "expires_at (demo_license\<lparr>expires_at := None\<rparr>) = None" by code_simp
  have v: "verifyLicenseToken demo_env (Jws demo_jws) (now (demo_io 2592999000)) = Inr demo_jws"
    by code_simp
  have t: "\<not> truthy (device_fingerprint (demo_request JUndefined))" by code_simp
  have d: "length (devices_of (demo_license\<lparr>expires_at := None\<rparr>)) = 0" by code_simp
  show ?thesis
    using null_expiry_never_expired [OF f r e, of demo_env demo_jws] v t d
    by (simp add: verification_result_def)
qed

theorem expiry_boundary_witness:
  "verify_license_POST demo_env (demo_io 2593000001) demo_db (Some (demo_request JUndefined))
     = (Failure 403 ''License has expired'', demo_db)
   \<and> verify_license_POST demo_env (demo_io 2593000000) demo_db (Some (demo_request JUndefined))
     = (Failure 403 ''Invalid license token signature'', demo_db)
   \<and> verify_license_POST demo_env (demo_io 2592999000) demo_db (Some (demo_request JUndefined))
     = (verification_result demo_license 0 False, demo_db)"
proof -
  have f: "\<And>t. finds_license (demo_io t) demo_db (demo_request JUndefined) demo_jws demo_license"
    by (simp add: finds_license_def demo_io_def demo_db_def demo_request_def demo_jws_def
        demo_claims_def demo_license_def select_single_def)
  have r: "\<not> revoked demo_license" by code_simp
  have e: "expires_at demo_license = Some 2593000000" by code_simp
  have n: "now (demo_io 2593000001) = 2593000001 \<and> now (demo_io 2593000000) = 2593000000
           \<and> now (demo_io 2592999000) = 2592999000"
    by code_simp
  have x: "exp (payload demo_jws) = 2593000000 div 1000" by code_simp
  have w: "well_signed demo_env demo_jws" by code_simp
  have t: "\<not> truthy (device_fingerprint (demo_request JUndefined))" by code_simp
  have d: "length (devices_of demo_license) = 0" by code_simp
  show ?thesis
    using expiry_boundary [OF f r e, of 2593000001 demo_env]
      expiry_boundary [OF f r e, of 2593000000 demo_env]
      expiry_boundary [OF f r e, of 2592999000 demo_env] n x w t d
    by simp
qed

section \<open>Properties of the token codec\<close>

text \<open>
  Claim C7, amended.  With a matching key pair configured, and a verification time
  strictly before the claims' \<open>exp\<close>, verifying the token signed from any claims succeeds
  and returns those claims, together with the issuer and audience that signing added.
\<close>

theorem sign_verify_roundtrip:
  assumes "loadPrivateKey env = Inr (PrivateKeyPem n)"
    and "loadPublicKey env = Inr (PublicKeyPem n)"
    and "t div 1000 < exp claims"
  shows "\<exists>signed. signLicenseToken env claims = Inr signed
           \<and> verifyLicenseToken env signed t
               = Inr \<lparr>alg = ''RS256'', payload = claims,
                       iss = or_default (JWT_ISSUER env) ''levox-license-server'',
                       aud = or_default (JWT_AUDIENCE env) ''levox-cli'', signed_by = n\<rparr>"
  using assms
  by (simp add: signLicenseToken_def jwt_sign_def verifyLicenseToken_def jwt_verify_def)

theorem sign_verify_roundtrip_witness:
  "\<exists>signed. signLicenseToken demo_env demo_claims = Inr signed
     \<and> verifyLicenseToken demo_env signed 5000 = Inr demo_jws"
proof -
  have 1: "loadPrivateKey demo_env = Inr (PrivateKeyPem 1)" by code_simp
  have 2: "loadPublicKey demo_env = Inr (PublicKeyPem 1)" by code_simp
  have 3: "(5000 :: int) div 1000 < exp demo_claims" by code_simp
  have 4: "\<lparr>alg = ''RS256'', payload = demo_claims,
            iss = or_default (JWT_ISSUER demo_env) ''levox-license-server'',
            aud = or_default (JWT_AUDIENCE demo_env) ''levox-cli'', signed_by = 1\<rparr> = demo_jws"
    by code_simp
  show ?thesis using sign_verify_roundtrip [OF 1 2 3] 4 by simp
qed

text \<open>
  Claim C7 as stated fails for claims that satisfy the invariants of the data model but
  are verified at or after their \<open>exp\<close>: signing succeeds, verification fails as expired.
\<close>

theorem sign_verify_roundtrip_counterexample:
  "iat demo_claims < exp demo_claims \<and> 1 \<le> payload_device_limit demo_claims
   \<and> signLicenseToken demo_env demo_claims = Inr (Jws demo_jws)
   \<and> verifyLicenseToken demo_env (Jws demo_jws) 2593000000 = Inl (JwtVerifyError expired)"
  by code_simp

section \<open>Properties of the issuing routes\<close>

lemma generate_duplicate:
  assumes "filter (\<lambda>r. email r = a \<and> plan r = ''enterprise'') (licenses db) = [r]"
    and "\<not> select_error io"
  shows "generate_enterprise_license env io db a msg
           = (Failure 409 ''An enterprise license already exists for this email'', db)"
  using assms by (simp add: generate_enterprise_license_def select_single_def)

lemma generate_no_duplicate:
  assumes "filter (\<lambda>r. email r = a \<and> plan r = ''enterprise'') (licenses db) = []"
  shows "fst (generate_enterprise_license env io db a msg)
           \<in> {Failure 500 ''License generation failed'', Failure 500 ''Failed to store license'',
              Success \<lparr>generated_license_key = uuidv4 io,
                       generated_expires_at = plus_one_year io (now io),
                       generated_message = msg\<rparr>}"
  using assms
  by (auto simp: generate_enterprise_license_def select_single_def Let_def
      split: sum.splits prod.splits)

lemma generate_fresh:
  assumes "filter (\<lambda>r. email r = a \<and> plan r = ''enterprise'') (licenses db) = []"
    and "loadPrivateKey env = Inr (PrivateKeyPem n)"
    and "uuidv4 io \<notin> set (map license_key (licenses db))" and "\<not> insert_error io"
  shows "fst (generate_enterprise_license env io db a msg)
           = Success \<lparr>generated_license_key = uuidv4 io,
                      generated_expires_at = plus_one_year io (now io),
                      generated_message = msg\<rparr>"
  using assms
  by (simp add: generate_enterprise_license_def select_single_def Let_def
      signLicenseToken_def jwt_sign_def insert_license_def)

lemma admin_check_status:
  "admin_check env provided = Some (status, err) \<Longrightarrow> status \<noteq> 409"
  by (auto simp: admin_check_def split: if_splits)

lemma issue_never_duplicate:
  "fst (issue_license_POST env io provided db request) \<noteq> Failure 409 m"
proof (cases "admin_check env provided")
  case None
  then show ?thesis
    by (simp add: issue_license_POST_def Let_def split: option.split prod.split sum.split)
next
  case (Some a)
  then obtain status err where "admin_check env provided = Some (status, err)"
    by (cases a) simp
  then show ?thesis
    using admin_check_status [of env provided status err]
    by (auto simp: issue_license_POST_def)
qed

text \<open>
  Claim C5, amended.  For an address that passes the free route's validation: when
  exactly one license row has that email and the plan \<open>enterprise\<close>, whatever its
  \<open>revoked\<close> and \<open>expires_at\<close>, the free and the pro route both fail with the duplicate
  error 409 and write nothing; when no row has them, neither route fails with 409, and
  the license is issued if the private key loads, the UUID is fresh and the insert
  succeeds.  The admin issue route never fails with 409: it makes no duplicate check.
\<close>

theorem duplicate_check:
  assumes "emailRegex_test a" and "trim a \<noteq> []"
  shows "(filter (\<lambda>r. email r = a \<and> plan r = ''enterprise'') (licenses db) = [r]
            \<and> \<not> select_error io \<longrightarrow>
          generate_free_license_POST env io db (Some (Some a))
            = (Failure 409 ''An enterprise license already exists for this email'', db)
          \<and> generate_pro_license_POST env io db (Some (Some a))
            = (Failure 409 ''An enterprise license already exists for this email'', db))
       \<and> (filter (\<lambda>r. email r = a \<and> plan r = ''enterprise'') (licenses db) = [] \<longrightarrow>
          fst (generate_free_license_POST env io db (Some (Some a))) \<noteq> Failure 409 m
          \<and> fst (generate_pro_license_POST env io db (Some (Some a))) \<noteq> Failure 409 m)
       \<and> (filter (\<lambda>r. email r = a \<and> plan r = ''enterprise'') (licenses db) = []
            \<and> loadPrivateKey env = Inr (PrivateKeyPem n)
            \<and> uuidv4 io \<notin> set (map license_key (licenses db)) \<and> \<not> insert_error io \<longrightarrow>
          fst (generate_free_license_POST env io db (Some (Some a)))
            = Success \<lparr>generated_license_key = uuidv4 io,
                       generated_expires_at = plus_one_year io (now io),
                       generated_message = ''Enterprise license generated successfully!''\<rparr>)
       \<and> fst (issue_license_POST env io provided db request) \<noteq> Failure 409 m"
proof -
  from assms have a: "a \<noteq> []" by (auto simp: trim_def)
  have free: "generate_free_license_POST env io db (Some (Some a))
      = generate_enterprise_license env io db a ''Enterprise license generated successfully!''"
    using assms a by (simp add: generate_free_license_POST_def defined_nonempty_def)
  have pro: "generate_pro_license_POST env io db (Some (Some a))
      = generate_enterprise_license env io db a ''Enterprise license generated successfully''"
    using a by (simp add: generate_pro_license_POST_def defined_nonempty_def)
  have none: "filter (\<lambda>r. email r = a \<and> plan r = ''enterprise'') (licenses db) = []
      \<Longrightarrow> fst (generate_enterprise_license env io db a msg) \<noteq> Failure 409 m" for msg
    using generate_no_duplicate [of a db env io msg] by auto
  show ?thesis
    unfolding free pro
    using generate_duplicate [of a db r io env] none generate_fresh [of a db env n io]
      issue_never_duplicate [of env io provided db request m]
    by simp
qed

text \<open>
  Claim C5 as stated fails in both directions.  An address whose only enterprise license
  is revoked is refused with the duplicate error; and the issue route issues a second
  license for an address and plan that already have an unrevoked, unexpired one.
\<close>

theorem duplicate_check_counterexample:
  "revoked demo_revoked_license
   \<and> generate_free_license_POST demo_env (demo_io 5000)
       \<lparr>licenses = [demo_revoked_license], license_activations = []\<rparr>
       (Some (Some ''old@levox.dev''))
     = (Failure 409 ''An enterprise license already exists for this email'',
        \<lparr>licenses = [demo_revoked_license], license_activations = []\<rparr>)
   \<and> \<not> revoked demo_license \<and> \<not> record_expired demo_license 5000
   \<and> email demo_license = ''dev@levox.dev'' \<and> plan demo_license = ''pro''
   \<and> fst (issue_license_POST demo_env (demo_io 5000) (Some ''admin-secret'') demo_db
       (Some \<lparr>issue_email = Some ''dev@levox.dev'', issue_plan = Some ''pro'',
              issue_device_limit = Some 1, issue_period_days = Some 30\<rparr>))
     = Success \<lparr>issued_token =
                  Jws (demo_jws\<lparr>payload := demo_claims\<lparr>jti := ''0b7e6a52-fresh'', iat := 5,
                                                         exp := 2592005\<rparr>\<rparr>),
                issued_license_key = ''0b7e6a52-fresh'', issued_expires_at = 2592005000\<rparr>"
  by code_simp

theorem duplicate_check_witness:
  "generate_free_license_POST demo_env (demo_io 5000)
       \<lparr>licenses = [demo_revoked_license], license_activations = []\<rparr>
       (Some (Some ''old@levox.dev''))
     = (Failure 409 ''An enterprise license already exists for this email'',
        \<lparr>licenses = [demo_revoked_license], license_activations = []\<rparr>)
   \<and> generate_pro_license_POST demo_env (demo_io 5000)
       \<lparr>licenses = [demo_revoked_license], license_activations = []\<rparr>
       (Some (Some ''old@levox.dev''))
     = (Failure 409 ''An enterprise license already exists for this email'',
        \<lparr>licenses = [demo_revoked_license], license_activations = []\<rparr>)
   \<and> fst (generate_free_license_POST demo_env (demo_io 5000) demo_db (Some (Some ''dev@levox.dev'')))
     = Success \<lparr>generated_license_key = ''0b7e6a52-fresh'',
                generated_expires_at = 31536005000,
                generated_message = ''Enterprise license generated successfully!''\<rparr>"
proof -
  have e1: "emailRegex_test ''old@levox.dev''" by code_simp
  have t1: "trim ''old@levox.dev'' \<noteq> []" by code_simp
  have e2: "emailRegex_test ''dev@levox.dev''" by code_simp
  have t2: "trim ''dev@levox.dev'' \<noteq> []" by code_simp
  have f1: "filter (\<lambda>r. email r = ''old@levox.dev'' \<and> plan r = ''enterprise'')
              (licenses \<lparr>licenses = [demo_revoked_license], license_activations = []\<rparr>)
            = [demo_revoked_license] \<and> \<not> select_error (demo_io 5000)"
    by code_simp
  have f2: "filter (\<lambda>r. email r = ''dev@levox.dev'' \<and> plan r = ''enterprise'') (licenses demo_db) = []
            \<and> loadPrivateKey demo_env = Inr (PrivateKeyPem 1)
            \<and> uuidv4 (demo_io 5000) \<notin> set (map license_key (licenses demo_db))
            \<and> \<not> insert_error (demo_io 5000)"
    by code_simp
  have v: "uuidv4 (demo_io 5000) = ''0b7e6a52-fresh''
           \<and> plus_one_year (demo_io 5000) (now (demo_io 5000)) = 31536005000"
    by code_simp
  show ?thesis
    using duplicate_check [OF e1 t1, of "\<lparr>licenses = [demo_revoked_license], license_activations = []\<rparr>"
            demo_revoked_license "demo_io 5000" demo_env]
          duplicate_check [OF e2 t2, of demo_db _ "demo_io 5000" demo_env _ 1] f1 f2 v
    by simp
qed

section \<open>Properties of revocation\<close>

lemma revoked_inD:
  assumes "revoked_in db k"
  obtains r where "filter (\<lambda>r. license_key r = k) (licenses db) = [r]" "revoked r"
proof (cases "filter (\<lambda>r. license_key r = k) (licenses db)")
  case Nil
  with assms show ?thesis by (simp add: revoked_in_def)
next
  case (Cons r rest)
  with assms have "rest = []" "revoked r"
    by (cases rest; simp add: revoked_in_def)+
  with Cons that show ?thesis by simp
qed

lemma verify_write_licenses:
  "licenses (snd (verify_write io db a)) =
     (if int (att_currentDevicesCount a) < device_limit (att_license a) \<and> \<not> update_error io
      then with_devices (att_licenseKey a)
             (devices_of (att_license a) @ [att_normalizedFingerprint a]) (licenses db)
      else licenses db)"
proof (cases a)
  case (fields k L f n)
  then show ?thesis by (simp add: verify_write_eq)
qed



lemma revoked_inI:
  "filter (\<lambda>r. license_key r = k) (licenses db) = [r] \<Longrightarrow> revoked r \<Longrightarrow> revoked_in db k"
  by (simp add: revoked_in_def)

lemma filter_key_map:
  assumes "\<And>r. license_key (change r) = license_key r"
  shows "filter (\<lambda>r. license_key r = k) (map (\<lambda>r. if matches r then change r else r) rows)
           = map (\<lambda>r. if matches r then change r else r) (filter (\<lambda>r. license_key r = k) rows)"
  by (induction rows) (auto simp: assms)

lemma revoked_in_map:
  assumes "revoked_in db k"
    and "\<And>r. license_key (change r) = license_key r"
    and "\<And>r. revoked r \<Longrightarrow> revoked (change r)"
  shows "revoked_in (db\<lparr>licenses := map (\<lambda>r. if matches r then change r else r) (licenses db)\<rparr>) k"
proof -
  from assms(1) obtain r where r: "filter (\<lambda>r. license_key r = k) (licenses db) = [r]" "revoked r"
    by (rule revoked_inD)
  have "filter (\<lambda>r. license_key r = k) (map (\<lambda>r. if matches r then change r else r) (licenses db))
          = [if matches r then change r else r]"
    by (simp add: filter_key_map assms(2) r(1))
  moreover have "revoked (if matches r then change r else r)"
    using r(2) assms(3) by simp
  ultimately show ?thesis by (simp add: revoked_in_def)
qed

lemma revoked_in_licenses:
  "licenses db' = licenses db \<Longrightarrow> revoked_in db' k = revoked_in db k"
  by (simp add: revoked_in_def)

lemma revoked_in_insert:
  assumes "revoked_in db k"
  shows "revoked_in (db\<lparr>licenses := snd (insert_license row (licenses db) fails)\<rparr>) k"
proof (cases "fails \<or> license_key row \<in> set (map license_key (licenses db))")
  case True
  then show ?thesis using assms by (simp add: insert_license_def revoked_in_def)
next
  case False
  from assms obtain r where r: "filter (\<lambda>r. license_key r = k) (licenses db) = [r]"
    by (rule revoked_inD)
  then have "r \<in> set (filter (\<lambda>r. license_key r = k) (licenses db))" by simp
  then have "k \<in> set (map license_key (licenses db))" by auto
  with False have "license_key row \<noteq> k" by auto
  with False assms show ?thesis by (simp add: insert_license_def revoked_in_def)
qed

lemma verify_keeps_revoked:
  assumes "revoked_in db k"
  shows "revoked_in (snd (verify_license_POST env io db request)) k"
proof (cases "verify_before_write env io db request")
  case (Inl response)
  then show ?thesis using assms by (simp add: verify_license_POST_def)
next
  case (Inr a)
  have w: "revoked_in (db\<lparr>licenses := with_devices k' ds (licenses db)\<rparr>) k" for k' ds
    unfolding with_devices_def using assms by (rule revoked_in_map) simp_all
  have "revoked_in (snd (verify_write io db a)) k
          = revoked_in (db\<lparr>licenses := licenses (snd (verify_write io db a))\<rparr>) k"
    by (simp add: revoked_in_def)
  also have "\<dots>"
    using w assms by (simp add: verify_write_licenses)
  finally show ?thesis using Inr by (simp add: verify_license_POST_def)
qed

lemma revoke_keeps_revoked:
  assumes "revoked_in db k"
  shows "revoked_in (snd (revoke_license_POST env io provided db request)) k"
proof -
  have m: "revoked_in (db\<lparr>licenses := map (\<lambda>r. if license_key r = key then r\<lparr>revoked := True\<rparr> else r)
             (licenses db)\<rparr>) k" for key
    using assms by (rule revoked_in_map) simp_all
  show ?thesis
    using assms m
    by (simp add: revoke_license_POST_def Let_def update_rows_def
        split: option.split prod.split)
qed

lemma issue_keeps_revoked:
  assumes "revoked_in db k"
  shows "revoked_in (snd (issue_license_POST env io provided db request)) k"
proof -
  have m: "revoked_in (db\<lparr>licenses := rows\<rparr>) k"
    if "insert_license row (licenses db) fails = (err, rows)" for row fails err rows
    using revoked_in_insert [OF assms, of row fails] that by simp
  show ?thesis
    using assms m
    by (auto simp: issue_license_POST_def Let_def split: option.split prod.split sum.split)
qed

lemma generate_keeps_revoked:
  assumes "revoked_in db k"
  shows "revoked_in (snd (generate_enterprise_license env io db a msg)) k"
proof -
  have m: "revoked_in (db\<lparr>licenses := rows\<rparr>) k"
    if "insert_license row (licenses db) fails = (err, rows)" for row fails err rows
    using revoked_in_insert [OF assms, of row fails] that by simp
  show ?thesis
    using assms m
    by (auto simp: generate_enterprise_license_def Let_def
        split: option.split prod.split sum.split)
qed

lemma serve_keeps_revoked:
  assumes "revoked_in db k"
  shows "revoked_in (serve env db call) k"
proof (cases call)
  case (VerifyLicense io request)
  then show ?thesis using verify_keeps_revoked [OF assms] by simp
next
  case (RevokeLicense io provided request)
  then show ?thesis using revoke_keeps_revoked [OF assms] by simp
next
  case (IssueLicense io provided request)
  then show ?thesis using issue_keeps_revoked [OF assms] by simp
next
  case (GenerateFreeLicense io request)
  then show ?thesis
    using generate_keeps_revoked [OF assms] assms
    by (simp add: generate_free_license_POST_def split: option.split)
next
  case (GenerateProLicense io request)
  then show ?thesis
    using generate_keeps_revoked [OF assms] assms
    by (simp add: generate_pro_license_POST_def split: option.split)
next
  case (GetLicenseToken io request)
  then show ?thesis using assms by simp
qed

lemma serve_all_keeps_revoked:
  "revoked_in db k \<Longrightarrow> revoked_in (serve_all env db calls) k"
  unfolding serve_all_def
  by (induction calls arbitrary: db) (simp_all add: serve_keeps_revoked)

lemma revoke_success:
  assumes "revoke_license_POST env io provided db request = (Success d, db1)"
  shows "revoked_in db1 (revoked_license_key d) \<and> revoked_license_key d \<noteq> []"
proof -
  from assms obtain body where b: "request = Some body"
    by (cases request) (auto simp: revoke_license_POST_def split: option.splits prod.splits)
  from assms have adm: "admin_check env provided = None"
    by (auto simp: revoke_license_POST_def split: option.splits prod.splits)
  from assms have dn: "defined_nonempty (revoke_license_key body)"
    by (auto simp: revoke_license_POST_def b adm split: if_splits)
  define key where "key = the (revoke_license_key body)"
  from dn have ne: "key \<noteq> []" by (auto simp: key_def defined_nonempty_def split: option.splits)
  from assms obtain L where
    sel: "select_single (\<lambda>r. license_key r = key) (licenses db) (select_error io) = Some L"
    by (cases "select_single (\<lambda>r. license_key r = key) (licenses db) (select_error io)")
      (auto simp: revoke_license_POST_def b adm dn key_def Let_def)
  from assms have res: "\<not> update_error io" "d = \<lparr>message = ''License revoked successfully'',
      revoked_license_key = key, revoked_flag = True\<rparr>"
    "db1 = db\<lparr>licenses := map (\<lambda>r. if license_key r = key then r\<lparr>revoked := True\<rparr> else r)
             (licenses db)\<rparr>"
    by (auto simp: revoke_license_POST_def b adm dn key_def [symmetric] Let_def sel update_rows_def
        split: if_splits)
  from sel have f: "filter (\<lambda>r. license_key r = key) (licenses db) = [L]"
    by (auto simp: select_single_def split: if_splits list.splits)
  then have "L \<in> set (filter (\<lambda>r. license_key r = key) (licenses db))" by simp
  then have kl: "license_key L = key" by simp
  have "filter (\<lambda>r. license_key r = key)
          (map (\<lambda>r. if license_key r = key then r\<lparr>revoked := True\<rparr> else r) (licenses db))
        = [if license_key L = key then L\<lparr>revoked := True\<rparr> else L]"
    by (simp add: filter_key_map f)
  then have "revoked_in db1 key"
    by (simp add: revoked_in_def res(3) kl)
  with ne show ?thesis by (simp add: res(2))
qed

lemma verify_revoked:
  assumes "revoked_in db k" and "token body = Some (Jws j)" and "jti (payload j) = k"
    and "k \<noteq> []" and "\<not> select_error io"
  shows "verify_license_POST env io db (Some body) = (Failure 403 ''License has been revoked'', db)"
proof -
  from assms(1) obtain r where r: "filter (\<lambda>r. license_key r = k) (licenses db) = [r]" "revoked r"
    by (rule revoked_inD)
  then have sel: "select_single (\<lambda>r. license_key r = k) (licenses db) (select_error io) = Some r"
    using assms(5) by (simp add: select_single_def)
  show ?thesis
    using verify_reads [OF assms(2,3,4) sel, of env] r(2)
    by (simp add: verify_license_POST_def)
qed

text \<open>
  Claim C4.  Revocation is absorbing.  After a revoke request has succeeded for a license
  key, and after any further requests to any route, served one after the other, the
  key's row is still its only row and still revoked, and every verification request
  whose token names that key and whose lookup the storage answers fails with the
  revoked error and writes nothing, at whatever time and whether or not the token would
  verify: the revoked check comes before the expiry and signature checks, and no route
  sets \<open>revoked\<close> back to false.
\<close>

theorem revocation_absorbing:
  assumes "revoke_license_POST env io0 provided db (Some revocation) = (Success d, db1)"
    and "token body = Some (Jws j)" and "jti (payload j) = revoked_license_key d"
    and "\<not> select_error io"
  shows "revoke_license_key revocation = Some (revoked_license_key d)
       \<and> revoked_in (serve_all env db1 calls) (revoked_license_key d)
       \<and> verify_license_POST env io (serve_all env db1 calls) (Some body)
           = (Failure 403 ''License has been revoked'', serve_all env db1 calls)"
proof -
  from assms(1) have r: "revoked_in db1 (revoked_license_key d)" "revoked_license_key d \<noteq> []"
    using revoke_success by blast+
  then have inv: "revoked_in (serve_all env db1 calls) (revoked_license_key d)"
    by (simp add: serve_all_keeps_revoked)
  have key: "revoke_license_key revocation = Some (revoked_license_key d)"
    using assms(1)
    by (auto simp: revoke_license_POST_def defined_nonempty_def Let_def update_rows_def
        split: option.splits prod.splits if_splits)
  show ?thesis
    using inv key verify_revoked [OF inv assms(2,3) r(2) assms(4), of env] by simp
qed



theorem revocation_absorbing_witness:
  "verify_license_POST demo_env (demo_io 9000)
      (serve_all demo_env
         (snd (revoke_license_POST demo_env (demo_io 8000) (Some ''admin-secret'') demo_db_bound
                 (Some \<lparr>revoke_license_key = Some ''key-1''\<rparr>)))
         [VerifyLicense (demo_io 8500) (Some (demo_request (JString ''device-ccc333''))),
          IssueLicense (demo_io 8600) (Some ''admin-secret'')
            (Some \<lparr>issue_email = Some ''dev@levox.dev'', issue_plan = Some ''pro'',
                   issue_device_limit = Some 1, issue_period_days = Some 30\<rparr>),
          RevokeLicense (demo_io 8700) (Some ''admin-secret'')
            (Some \<lparr>revoke_license_key = Some ''key-1''\<rparr>)])
      (Some (demo_request JUndefined))
     = (Failure 403 ''License has been revoked'',
        serve_all demo_env
         (snd (revoke_license_POST demo_env (demo_io 8000) (Some ''admin-secret'') demo_db_bound
                 (Some \<lparr>revoke_license_key = Some ''key-1''\<rparr>)))
         [VerifyLicense (demo_io 8500) (Some (demo_request (JString ''device-ccc333''))),
          IssueLicense (demo_io 8600) (Some ''admin-secret'')
            (Some \<lparr>issue_email = Some ''dev@levox.dev'', issue_plan = Some ''pro'',
                   issue_device_limit = Some 1, issue_period_days = Some 30\<rparr>),
          RevokeLicense (demo_io 8700) (Some ''admin-secret'')
            (Some \<lparr>revoke_license_key = Some ''key-1''\<rparr>)])"
proof -
  have r: "revoke_license_POST demo_env (demo_io 8000) (Some ''admin-secret'') demo_db_bound
             (Some \<lparr>revoke_license_key = Some ''key-1''\<rparr>)
           = (Success \<lparr>message = ''License revoked successfully'',
                        revoked_license_key = ''key-1'', revoked_flag = True\<rparr>,
              demo_db_bound\<lparr>licenses := [demo_license_bound\<lparr>revoked := True\<rparr>]\<rparr>)"
    by code_simp
  have t: "token (demo_request JUndefined) = Some (Jws demo_jws)" by code_simp
  have k: "jti (payload demo_jws)
           = revoked_license_key \<lparr>message = ''License revoked successfully'',
                                   revoked_license_key = ''key-1'', revoked_flag = True\<rparr>"
    by code_simp
  have s: "\<not> select_error (demo_io 9000)" by code_simp
  show ?thesis
    using revocation_absorbing [OF r t k s] by (simp add: r)
qed

section \<open>Properties of a series of verifications\<close>

lemma call_passes:
  assumes "select_single (\<lambda>r. license_key r = jti (payload j)) (licenses db) False = Some L"
    and "jti (payload j) \<noteq> []" and "\<not> revoked L" and "call_ok env L j c"
  shows "passes_checks env (fst c) db \<lparr>token = Some (Jws j), device_fingerprint = snd c\<rparr> L"
    and "normalizeDeviceFingerprint (snd c) = Inr (fingerprint_of c)"
    and "\<not> update_error (fst c)"
  using assms
  by (auto simp: passes_checks_def finds_license_def call_ok_def fingerprint_of_def
      split: sum.splits)

lemma call_step:
  assumes "select_single (\<lambda>r. license_key r = jti (payload j)) (licenses db) False = Some L"
    and "jti (payload j) \<noteq> []" and "\<not> revoked L" and "call_ok env L j c"
  shows "verify_license_POST env (fst c) db (snd (request_of j c)) =
     (if fingerprint_of c \<in> set (devices_of L)
      then (verification_result L (length (devices_of L)) False, db)
      else if int (length (devices_of L)) < device_limit L
      then (verification_result L (length (devices_of L) + 1) False,
            insert_activation (bound_event (fst c) (jti (payload j)) (fingerprint_of c))
              (db\<lparr>licenses := with_devices (jti (payload j))
                     (devices_of L @ [fingerprint_of c]) (licenses db)\<rparr>)
              (activation_insert_error (fst c)))
      else (verification_result L (length (devices_of L)) True,
            insert_activation (refused_event (fst c) (jti (payload j)) (fingerprint_of c)) db
              (activation_insert_error (fst c))))"
proof -
  have key: "license_key L = jti (payload j)" using assms(1) by (rule found_key)
  note p = call_passes [OF assms]
  have "device_fingerprint \<lparr>token = Some (Jws j), device_fingerprint = snd c\<rparr> = snd c" by simp
  with p(2) have n: "normalizeDeviceFingerprint
      (device_fingerprint \<lparr>token = Some (Jws j), device_fingerprint = snd c\<rparr>) = Inr (fingerprint_of c)"
    by simp
  show ?thesis
    using verify_admits [OF p(1) n] p(3) by (simp add: request_of_def key)
qed

lemma call_ok_devices:
  "call_ok env (L\<lparr>current_devices := ds\<rparr>) j = call_ok env L j"
  by (rule ext) (simp add: call_ok_def record_expired_def)

lemma stored_devices_found:
  "select_single (\<lambda>r. license_key r = k) (licenses db) False = Some L
     \<Longrightarrow> stored_devices db k = [devices_of L]"
  by (auto simp: stored_devices_def select_single_def split: list.splits)

lemma in_turn_counts:
  assumes "select_single (\<lambda>r. license_key r = jti (payload j)) (licenses db) False = Some L"
    and "jti (payload j) \<noteq> []" and "\<not> revoked L"
    and "list_all (call_ok env L j) calls"
    and "distinct (map fingerprint_of calls)"
    and "set (map fingerprint_of calls) \<inter> set (devices_of L) = {}"
  shows "length (filter reports_admitted (fst (verify_in_turn env db (map (request_of j) calls))))
           = min (length calls) (nat (device_limit L - int (length (devices_of L))))
       \<and> length (filter reports_limit_exceeded
                   (fst (verify_in_turn env db (map (request_of j) calls))))
           = length calls - nat (device_limit L - int (length (devices_of L)))
       \<and> stored_devices (snd (verify_in_turn env db (map (request_of j) calls))) (jti (payload j))
           = [devices_of L @ take (nat (device_limit L - int (length (devices_of L))))
                               (map fingerprint_of calls)]"
  using assms
proof (induction calls arbitrary: db L)
  case Nil
  then show ?case by (simp add: stored_devices_found)
next
  case (Cons c calls)
  let ?k = "jti (payload j)"
  let ?f = "fingerprint_of c"
  let ?ds = "devices_of L"
  from Cons.prems have ok: "call_ok env L j c" and oks: "list_all (call_ok env L j) calls"
    and fresh: "?f \<notin> set ?ds" and d: "distinct (map fingerprint_of calls)"
    and nf: "?f \<notin> set (map fingerprint_of calls)"
    and disj: "set (map fingerprint_of calls) \<inter> set ?ds = {}"
    by auto
  note step = call_step [OF Cons.prems(1,2,3) ok]
  have req: "request_of j c = (fst c, snd (request_of j c))" by (simp add: request_of_def)
  show ?case
  proof (cases "int (length ?ds) < device_limit L")
    case True
    define L1 where "L1 = L\<lparr>current_devices := Some (?ds @ [?f])\<rparr>"
    define db1 where "db1 = insert_activation (bound_event (fst c) ?k ?f)
              (db\<lparr>licenses := with_devices ?k (?ds @ [?f]) (licenses db)\<rparr>)
              (activation_insert_error (fst c))"
    have post: "verify_license_POST env (fst c) db (snd (request_of j c))
                  = (verification_result L (length ?ds + 1) False, db1)"
      using step fresh True by (simp add: db1_def)
    have sel1: "select_single (\<lambda>r. license_key r = ?k) (licenses db1) False = Some L1"
      using with_devices_found [OF Cons.prems(1)] by (simp add: db1_def L1_def)
    have dev1: "devices_of L1 = ?ds @ [?f]" by (simp add: L1_def devices_of_def)
    have lim1: "device_limit L1 = device_limit L" "\<not> revoked L1"
      using Cons.prems(3) by (simp_all add: L1_def)
    have oks1: "list_all (call_ok env L1 j) calls"
      using oks by (simp add: L1_def call_ok_devices)
    have disj1: "set (map fingerprint_of calls) \<inter> set (devices_of L1) = {}"
      using disj nf by (auto simp: dev1)
    note ih = Cons.IH [OF sel1 Cons.prems(2) lim1(2) oks1 d disj1]
    have slots: "nat (device_limit L1 - int (length (devices_of L1)))
                   = nat (device_limit L - int (length ?ds)) - 1"
      by (simp add: dev1 lim1(1))
    have pos: "0 < nat (device_limit L - int (length ?ds))" using True by simp
    obtain rs db2 where rest: "verify_in_turn env db1 (map (request_of j) calls) = (rs, db2)"
      by (cases "verify_in_turn env db1 (map (request_of j) calls)")
    have adm: "reports_admitted (verification_result L (length ?ds + 1) False)"
      and nlim: "\<not> reports_limit_exceeded (verification_result L (length ?ds + 1) False)"
      by (simp_all add: reports_admitted_def reports_limit_exceeded_def verification_result_def)
    have unfold: "verify_in_turn env db (request_of j c # map (request_of j) calls)
                    = (verification_result L (length ?ds + 1) False # rs, db2)"
      using post rest by (subst req) simp
    from pos obtain s where s: "nat (device_limit L - int (length ?ds)) = Suc s"
      by (cases "nat (device_limit L - int (length ?ds))") auto
    have ih': "length (filter reports_admitted rs) = min (length calls) s
        \<and> length (filter reports_limit_exceeded rs) = length calls - s
        \<and> stored_devices db2 ?k = [(?ds @ [?f]) @ take s (map fingerprint_of calls)]"
    proof -
      have "nat (device_limit L1 - int (length (devices_of L1))) = s"
        using slots s by simp
      with ih show ?thesis by (simp add: rest dev1)
    qed
    show ?thesis
      using ih' adm nlim
      by (simp add: unfold s)
  next
    case False
    define db1 where "db1 = insert_activation (refused_event (fst c) ?k ?f) db
              (activation_insert_error (fst c))"
    have post: "verify_license_POST env (fst c) db (snd (request_of j c))
                  = (verification_result L (length ?ds) True, db1)"
      using step fresh False by (simp add: db1_def)
    have sel1: "select_single (\<lambda>r. license_key r = ?k) (licenses db1) False = Some L"
      using Cons.prems(1) by (simp add: db1_def)
    note ih = Cons.IH [OF sel1 Cons.prems(2,3) oks d disj]
    have zero: "nat (device_limit L - int (length ?ds)) = 0" using False by simp
    obtain rs db2 where rest: "verify_in_turn env db1 (map (request_of j) calls) = (rs, db2)"
      by (cases "verify_in_turn env db1 (map (request_of j) calls)")
    have nadm: "\<not> reports_admitted (verification_result L (length ?ds) True)"
      and lim: "reports_limit_exceeded (verification_result L (length ?ds) True)"
      by (simp_all add: reports_admitted_def reports_limit_exceeded_def verification_result_def)
    have unfold: "verify_in_turn env db (request_of j c # map (request_of j) calls)
                    = (verification_result L (length ?ds) True # rs, db2)"
      using post rest by (subst req) simp
    have ih': "length (filter reports_admitted rs) = min (length calls) 0
        \<and> length (filter reports_limit_exceeded rs) = length calls - 0
        \<and> stored_devices db2 ?k = [?ds @ take 0 (map fingerprint_of calls)]"
      using ih by (simp only: rest fst_conv snd_conv zero)
    show ?thesis
      using ih' nadm lim
      by (simp add: unfold zero)
  qed
qed


text \<open>
  Claim C2, amended.  When the verification requests on one license are served one after
  the other, each passing the checks before the admission, with fingerprints that are
  pairwise distinct after normalisation and not yet bound: exactly as many are admitted
  as there are free places under \<open>device_limit\<close> (all of them if fewer are sent), every
  further one is answered with \<open>device_limit_exceeded\<close>, and the stored device list is the
  old one followed by the admitted fingerprints in order.  For a license with no device
  bound and limit \<open>N\<close>, \<open>M > N\<close> requests give \<open>N\<close> admissions and \<open>M - N\<close> refusals.  A
  request whose fingerprint is already bound is answered with the unchanged count and
  writes nothing.
\<close>

theorem admissions_in_turn:
  assumes "select_single (\<lambda>r. license_key r = jti (payload j)) (licenses db) False = Some L"
    and "jti (payload j) \<noteq> []" and "\<not> revoked L"
    and "list_all (call_ok env L j) calls"
    and "distinct (map fingerprint_of calls)"
    and "set (map fingerprint_of calls) \<inter> set (devices_of L) = {}"
  shows "length (filter reports_admitted (fst (verify_in_turn env db (map (request_of j) calls))))
           = min (length calls) (nat (device_limit L - int (length (devices_of L))))
       \<and> length (filter reports_limit_exceeded
                   (fst (verify_in_turn env db (map (request_of j) calls))))
           = length calls - nat (device_limit L - int (length (devices_of L)))
       \<and> stored_devices (snd (verify_in_turn env db (map (request_of j) calls))) (jti (payload j))
           = [devices_of L @ take (nat (device_limit L - int (length (devices_of L))))
                               (map fingerprint_of calls)]
       \<and> (call_ok env L j again \<and> fingerprint_of again \<in> set (devices_of L) \<longrightarrow>
            verify_license_POST env (fst again) db (snd (request_of j again))
              = (verification_result L (length (devices_of L)) False, db))"
proof -
  have "verify_license_POST env (fst again) db (snd (request_of j again))
          = (verification_result L (length (devices_of L)) False, db)"
    if "call_ok env L j again" and "fingerprint_of again \<in> set (devices_of L)"
    using call_step [OF assms(1,2,3) that(1)] that(2) by simp
  then show ?thesis
    using in_turn_counts [OF assms] by blast
qed

theorem admissions_in_turn_witness:
  "length (filter reports_admitted
      (fst (verify_in_turn demo_env demo_db
         (map (request_of demo_jws)
            [(demo_io 5000, JString ''device-aaa111''), (demo_io 6000, JString ''device-bbb222''),
             (demo_io 7000, JString ''device-ccc333'')])))) = 1
   \<and> length (filter reports_limit_exceeded
      (fst (verify_in_turn demo_env demo_db
         (map (request_of demo_jws)
            [(demo_io 5000, JString ''device-aaa111''), (demo_io 6000, JString ''device-bbb222''),
             (demo_io 7000, JString ''device-ccc333'')])))) = 2
   \<and> stored_devices
      (snd (verify_in_turn demo_env demo_db
         (map (request_of demo_jws)
            [(demo_io 5000, JString ''device-aaa111''), (demo_io 6000, JString ''device-bbb222''),
             (demo_io 7000, JString ''device-ccc333'')]))) ''key-1'' = [[''device-aaa111'']]"
proof -
  let ?calls = "[(demo_io 5000, JString ''device-aaa111''), (demo_io 6000, JString ''device-bbb222''),
             (demo_io 7000, JString ''device-ccc333'')]"
  have 1: "select_single (\<lambda>r. license_key r = jti (payload demo_jws)) (licenses demo_db) False
             = Some demo_license"
    by code_simp
  have 2: "jti (payload demo_jws) \<noteq> []" by code_simp
  have 3: "\<not> revoked demo_license" by code_simp
  have 4: "list_all (call_ok demo_env demo_license demo_jws) ?calls" by code_simp
  have 5: "distinct (map fingerprint_of ?calls)" by code_simp
  have 6: "set (map fingerprint_of ?calls) \<inter> set (devices_of demo_license) = {}" by code_simp
  have v: "min (length ?calls)
             (nat (device_limit demo_license - int (length (devices_of demo_license)))) = 1
           \<and> length ?calls - nat (device_limit demo_license - int (length (devices_of demo_license))) = 2
           \<and> devices_of demo_license
               @ take (nat (device_limit demo_license - int (length (devices_of demo_license))))
                   (map fingerprint_of ?calls) = [''device-aaa111'']
           \<and> jti (payload demo_jws) = ''key-1''"
    by code_simp
  show ?thesis
    using admissions_in_turn [OF 1 2 3 4 5 6] v by simp
qed

text \<open>
  Claim C2 as stated fails under concurrency.  Two requests with distinct fingerprints on
  a license with limit 1 and no device bound, each having read the record before the
  other writes, are both answered as bound with count 1 and neither as
  \<open>limit_exceeded\<close>; the second write replaces the first device.
\<close>

theorem concurrent_admission_counterexample:
  "device_limit demo_license = 1 \<and> devices_of demo_license = []
   \<and> verify_overlapping demo_env demo_db
       (demo_io 5000, Some (demo_request (JString ''device-aaa111'')))
       (demo_io 5000, Some (demo_request (JString ''device-bbb222'')))
     = (Success \<lparr>valid = True, data_tier = ''pro'', data_expires_at = Some 2593000000,
                 data_device_limit = 1, current_devices_count = 1,
                 device_limit_exceeded = False\<rparr>,
        Success \<lparr>valid = True, data_tier = ''pro'', data_expires_at = Some 2593000000,
                 data_device_limit = 1, current_devices_count = 1,
                 device_limit_exceeded = False\<rparr>,
        \<lparr>licenses = [demo_license\<lparr>current_devices := Some [''device-bbb222'']\<rparr>],
         license_activations =
           [bound_event (demo_io 5000) ''key-1'' ''device-aaa111'',
            bound_event (demo_io 5000) ''key-1'' ''device-bbb222'']\<rparr>)"
  by code_simp

end
